theory Spec2Isabelle
  imports Complex_Main "HOL-Library.Log_Nat"
begin

section \<open>JavaScript values\<close>

text \<open>
  The reconciliation engine (\<^verbatim>\<open>lib/data-service\<close>) works on rows typed
  \<^verbatim>\<open>Record<string, any>\<close>. The values that flow through it are strings, numbers,
  \<^verbatim>\<open>null\<close> and \<^verbatim>\<open>undefined\<close>. A number is an IEEE-754 double: its finite values are
  carried as the rational they denote, next to the three special values. The two zeros
  are one value \<open>Fin 0\<close>: the program compares numbers with \<^verbatim>\<open>===\<close>, \<^verbatim>\<open>!==\<close> and
  \<^verbatim>\<open>>\<close>, prints them with \<^verbatim>\<open>String\<close>, \<^verbatim>\<open>toFixed\<close> and \<^verbatim>\<open>JSON.stringify\<close>, uses them as
  \<^verbatim>\<open>Map\<close> keys and never divides by a value of a row, and none of these tells \<^verbatim>\<open>-0\<close>
  from \<^verbatim>\<open>0\<close>. Equality of numbers in this theory is therefore equality up to the sign
  of a zero.
\<close>

datatype jsnum = NaN | PInf | NInf | Fin rat

datatype jsval = Undefined | Null | Str string | Num jsnum

text \<open>
  A row is a JavaScript object used as a dictionary: the association list of its own
  properties, in the order in which they were created. \<^verbatim>\<open>row[k]\<close> reads \<^verbatim>\<open>undefined\<close>
  for an absent key; \<^verbatim>\<open>row[k] = v\<close> overwrites in place or appends. (The members that
  every object inherits from \<^verbatim>\<open>Object.prototype\<close>, such as \<^verbatim>\<open>constructor\<close>, are not part
  of a row: a read of such a name from a row that has no property of that name is outside
  the model. The program reads rows under fixed field names, under names containing
  \<^verbatim>\<open>qty\<close> and, in the export, under the names of the first row.)
\<close>

type_synonym DataRow = "(string \<times> jsval) list"

definition row_get :: "DataRow \<Rightarrow> string \<Rightarrow> jsval" where
  "row_get r k = (case map_of r k of None \<Rightarrow> Undefined | Some v \<Rightarrow> v)"

fun row_set :: "DataRow \<Rightarrow> string \<Rightarrow> jsval \<Rightarrow> DataRow" where
  "row_set [] k v = [(k, v)]"
| "row_set ((k', v') # r) k v =
     (if k' = k then (k, v) # r else (k', v') # row_set r k v)"

text \<open>Truthiness (\<^verbatim>\<open>ToBoolean\<close>) and the negation of a number.\<close>

fun truthy :: "jsval \<Rightarrow> bool" where
  "truthy Undefined = False"
| "truthy Null = False"
| "truthy (Str s) = (s \<noteq> [])"
| "truthy (Num NaN) = False"
| "truthy (Num (Fin q)) = (q \<noteq> 0)"
| "truthy (Num PInf) = True"
| "truthy (Num NInf) = True"

fun neg :: "jsnum \<Rightarrow> jsnum" where
  "neg NaN = NaN"
| "neg PInf = NInf"
| "neg NInf = PInf"
| "neg (Fin q) = Fin (- q)"

fun isNaN :: "jsnum \<Rightarrow> bool" where
  "isNaN NaN = True"
| "isNaN _ = False"

fun isFinite :: "jsnum \<Rightarrow> bool" where
  "isFinite (Fin q) = True"
| "isFinite _ = False"

section \<open>Strings\<close>

text \<open>
  A string is a list of 8-bit characters: the model covers the strings whose code units
  are below 256 (Latin-1). Among these, the white space and line terminators that
  \<^verbatim>\<open>trim\<close>, \<^verbatim>\<open>Number\<close> and the class \<^verbatim>\<open>\s\<close> of a regular expression strip are the units 9
  to 13, 32 and 160 (the no-break space).
\<close>

definition is_ws :: "char \<Rightarrow> bool" where
  "is_ws c = (of_char c \<in> {9, 10, 11, 12, 13, 32, 160 :: nat})"

definition trim :: "string \<Rightarrow> string" where
  "trim s = rev (dropWhile is_ws (rev (dropWhile is_ws s)))"

text \<open>
  \<^verbatim>\<open>toUpperCase\<close> and \<^verbatim>\<open>toLowerCase\<close> on these characters: the letters \<^verbatim>\<open>a\<close> to \<^verbatim>\<open>z\<close>
  (97 to 122) with capitals 65 to 90, and the accented letters 224 to 254 (247, the
  division sign, is none) with capitals 192 to 222; the sharp s (223) is written
  \<^verbatim>\<open>SS\<close> in capitals. Two letters have their capital above 255, the micro sign (181)
  and the y with diaeresis (255): \<open>capitalInRange\<close> says that a string has neither, and
  only on such strings is \<open>toUpperCase\<close> the function of the language (the model leaves
  the two letters as they are).
\<close>

definition capitalInRange :: "string \<Rightarrow> bool" where
  "capitalInRange s = list_all (\<lambda>c. (of_char c :: nat) \<noteq> 181 \<and> (of_char c :: nat) \<noteq> 255) s"

definition toUpperCase_char :: "char \<Rightarrow> string" where
  "toUpperCase_char c =
     (let n = of_char c :: nat in
      if (97 \<le> n \<and> n \<le> 122) \<or> (224 \<le> n \<and> n \<le> 254 \<and> n \<noteq> 247) then [char_of (n - 32)]
      else if n = 223 then ''SS'' else [c])"

definition toLowerCase_char :: "char \<Rightarrow> char" where
  "toLowerCase_char c =
     (let n = of_char c :: nat in
      if (65 \<le> n \<and> n \<le> 90) \<or> (192 \<le> n \<and> n \<le> 222 \<and> n \<noteq> 215) then char_of (n + 32)
      else c)"

definition toUpperCase :: "string \<Rightarrow> string" where
  "toUpperCase s = concat (map toUpperCase_char s)"

definition toLowerCase :: "string \<Rightarrow> string" where
  "toLowerCase s = map toLowerCase_char s"

fun startsWith :: "string \<Rightarrow> string \<Rightarrow> bool" where
  "startsWith s [] = True"
| "startsWith [] (p # ps) = False"
| "startsWith (c # cs) (p # ps) = (c = p \<and> startsWith cs ps)"

definition endsWith :: "string \<Rightarrow> string \<Rightarrow> bool" where
  "endsWith s p = startsWith (rev s) (rev p)"

fun str_includes :: "string \<Rightarrow> string \<Rightarrow> bool" where
  "str_includes [] p = (p = [])"
| "str_includes (c # cs) p = (startsWith (c # cs) p \<or> str_includes cs p)"

text \<open>\<^verbatim>\<open>s.split(c)\<close> for a one-character separator, and \<^verbatim>\<open>xs.join(sep)\<close>.\<close>

fun split :: "char \<Rightarrow> string \<Rightarrow> string list" where
  "split c [] = [[]]"
| "split c (x # xs) =
     (let r = split c xs in if x = c then [] # r else (x # hd r) # tl r)"


text \<open>\<^verbatim>\<open>s.split(/\r?\n/)\<close>: a line ends at a line feed, with the carriage return before it.\<close>

fun split_lines :: "string \<Rightarrow> string list" where
  "split_lines [] = [[]]"
| "split_lines (x # xs) =
     (if x = CHR 0x0A then [] # split_lines xs
      else if x = CHR 0x0D \<and> xs \<noteq> [] \<and> hd xs = CHR 0x0A then [] # split_lines (tl xs)
      else (let r = split_lines xs in (x # hd r) # tl r))"

section \<open>Numbers\<close>

text \<open>
  Rounding a rational to the nearest double, ties to even (IEEE-754 binary64): 53
  significant bits, subnormals below \<open>2\<^sup>-\<^sup>1\<^sup>0\<^sup>2\<^sup>2\<close>, infinity from \<open>2\<^sup>1\<^sup>0\<^sup>2\<^sup>4\<close> on. With \<open>e\<close> the
  exponent of \<open>x\<close> and \<open>q = 2\<^sup>e\<^sup>-\<^sup>5\<^sup>2\<close> the spacing of the doubles there, \<open>x\<close> rounds to
  \<open>m * q\<close>, which reaches \<open>2\<^sup>1\<^sup>0\<^sup>2\<^sup>4\<close> when \<open>e\<close> is 1024 or more, or \<open>e\<close> is 1023 and \<open>m\<close> is \<open>2\<^sup>5\<^sup>3\<close>.
\<close>

definition pow2 :: "int \<Rightarrow> rat" where
  "pow2 e = (if 0 \<le> e then 2 ^ nat e else 1 / 2 ^ nat (- e))"

definition ilog2 :: "rat \<Rightarrow> int" where
  "ilog2 x =
     (let d = bitlen (fst (quotient_of x)) - bitlen (snd (quotient_of x))
      in if pow2 d \<le> x then d else d - 1)"

definition round_ties_even :: "rat \<Rightarrow> int" where
  "round_ties_even x =
     (let f = \<lfloor>x\<rfloor>; d = x - of_int f
      in if d < 1 / 2 then f else if 1 / 2 < d then f + 1
         else if even f then f else f + 1)"

definition fl_pos :: "rat \<Rightarrow> jsnum" where
  "fl_pos x =
     (let e = max (ilog2 x) (- 1022); q = pow2 (e - 52);
          m = round_ties_even (x / q)
      in if 1024 \<le> e \<or> (e = 1023 \<and> 2 ^ 53 \<le> m) then PInf else Fin (of_int m * q))"

definition fl :: "rat \<Rightarrow> jsnum" where
  "fl x = (if x = 0 then Fin 0 else if 0 < x then fl_pos x else neg (fl_pos (- x)))"

text \<open>
  \<^verbatim>\<open>Number(s)\<close> on a string (\<^verbatim>\<open>StringToNumber\<close>): white space is stripped, the empty
  string is 0, then a binary, octal or hexadecimal integer literal, or an optionally
  signed decimal literal or \<^verbatim>\<open>Infinity\<close>; anything else is \<^verbatim>\<open>NaN\<close>.
\<close>

definition is_digit :: "char \<Rightarrow> bool" where
  "is_digit c = (let n = of_char c :: nat in 48 \<le> n \<and> n \<le> 57)"

definition hex_val :: "char \<Rightarrow> nat option" where
  "hex_val c =
     (let n = of_char c :: nat in
      if 48 \<le> n \<and> n \<le> 57 then Some (n - 48)
      else if 97 \<le> n \<and> n \<le> 102 then Some (n - 87)
      else if 65 \<le> n \<and> n \<le> 70 then Some (n - 55)
      else None)"

fun radix_val :: "nat \<Rightarrow> nat \<Rightarrow> string \<Rightarrow> nat option" where
  "radix_val b acc [] = Some acc"
| "radix_val b acc (c # cs) =
     (case hex_val c of
        None \<Rightarrow> None
      | Some d \<Rightarrow> if d < b then radix_val b (acc * b + d) cs else None)"

definition digits_val :: "string \<Rightarrow> nat" where
  "digits_val ds = foldl (\<lambda>a c. 10 * a + (of_char c - 48)) 0 ds"

definition nonDecimalLiteral :: "string \<Rightarrow> nat option" where
  "nonDecimalLiteral s =
     (case s of
        c0 # c1 # d # ds \<Rightarrow>
          if c0 \<noteq> CHR ''0'' then None
          else if c1 = CHR ''x'' \<or> c1 = CHR ''X'' then radix_val 16 0 (d # ds)
          else if c1 = CHR ''o'' \<or> c1 = CHR ''O'' then radix_val 8 0 (d # ds)
          else if c1 = CHR ''b'' \<or> c1 = CHR ''B'' then radix_val 2 0 (d # ds)
          else None
      | _ \<Rightarrow> None)"

definition exponentPart :: "string \<Rightarrow> int option" where
  "exponentPart s =
     (case s of
        [] \<Rightarrow> Some 0
      | c # r \<Rightarrow>
          if c = CHR ''e'' \<or> c = CHR ''E'' then
            (let (sgn, ds) = (case r of
                                [] \<Rightarrow> (1, [])
                              | x # xs \<Rightarrow> if x = CHR ''-'' then (- 1, xs)
                                          else if x = CHR ''+'' then (1, xs) else (1, r))
             in if ds \<noteq> [] \<and> list_all is_digit ds then Some (sgn * int (digits_val ds))
                else None)
          else None)"

definition pow10 :: "int \<Rightarrow> rat" where
  "pow10 e = (if 0 \<le> e then 10 ^ nat e else 1 / 10 ^ nat (- e))"

definition unsignedDecimalLiteral :: "string \<Rightarrow> jsnum" where
  "unsignedDecimalLiteral s =
     (if s = ''Infinity'' then PInf
      else
        let ip = takeWhile is_digit s; r1 = dropWhile is_digit s;
            dot = (r1 \<noteq> [] \<and> hd r1 = CHR ''.'');
            fp = (if dot then takeWhile is_digit (tl r1) else []);
            r2 = (if dot then dropWhile is_digit (tl r1) else r1)
        in if ip = [] \<and> fp = [] then NaN
           else (case exponentPart r2 of
                   None \<Rightarrow> NaN
                 | Some e \<Rightarrow>
                     fl (of_nat (digits_val (ip @ fp)) * pow10 (e - int (length fp)))))"

definition StringToNumber :: "string \<Rightarrow> jsnum" where
  "StringToNumber s =
     (let t = trim s in
      if t = [] then Fin 0
      else (case nonDecimalLiteral t of
              Some n \<Rightarrow> fl (of_nat n)
            | None \<Rightarrow>
                if hd t = CHR ''+'' then unsignedDecimalLiteral (tl t)
                else if hd t = CHR ''-'' then neg (unsignedDecimalLiteral (tl t))
                else unsignedDecimalLiteral t))"

text \<open>\<^verbatim>\<open>Number(v)\<close> on any value (\<^verbatim>\<open>ToNumber\<close>).\<close>

fun Number :: "jsval \<Rightarrow> jsnum" where
  "Number Undefined = NaN"
| "Number Null = Fin 0"
| "Number (Str s) = StringToNumber s"
| "Number (Num n) = n"

section \<open>Property order\<close>

text \<open>
  \<^verbatim>\<open>Object.keys\<close> lists the array indices first (the canonical numerals of the integers
  below \<open>2\<^sup>3\<^sup>2 - 1\<close>), in ascending order, then the other names in order of creation.
\<close>

definition arrayIndex :: "string \<Rightarrow> bool" where
  "arrayIndex k =
     (k \<noteq> [] \<and> list_all is_digit k \<and> (k = ''0'' \<or> hd k \<noteq> CHR ''0'')
      \<and> digits_val k < 2 ^ 32 - 1)"

definition ownKeys :: "string list \<Rightarrow> string list" where
  "ownKeys ks = sort_key digits_val (filter arrayIndex ks) @ filter (\<lambda>k. \<not> arrayIndex k) ks"

definition Object_keys :: "DataRow \<Rightarrow> string list" where
  "Object_keys r = ownKeys (map fst r)"

section \<open>Deep copy through JSON\<close>

text \<open>
  \<^verbatim>\<open>JSON.parse(JSON.stringify(data))\<close> on a list of rows: a property holding
  \<^verbatim>\<open>undefined\<close> is left out, a number that is not finite is written as \<^verbatim>\<open>null\<close>, every
  other value comes back as it was.
\<close>

fun json_value :: "jsval \<Rightarrow> jsval" where
  "json_value (Num (Fin q)) = Num (Fin q)"
| "json_value (Num n) = Null"
| "json_value v = v"

definition json_row :: "DataRow \<Rightarrow> DataRow" where
  "json_row r = map (\<lambda>(k, v). (k, json_value v)) (filter (\<lambda>(k, v). v \<noteq> Undefined) r)"

definition json_copy :: "DataRow list \<Rightarrow> DataRow list" where
  "json_copy d = map json_row d"

section \<open>The field normalizer\<close>

text \<open>
  \<^verbatim>\<open>cleanData\<close>: the quantity columns are the keys of the first row of the copy whose
  lower-cased name contains \<^verbatim>\<open>qty\<close>; each is coerced to a number or \<^verbatim>\<open>null\<close> in every
  row; the four text columns are trimmed and upper-cased where they hold a non-empty
  string.
\<close>

definition clean_qty :: "DataRow \<Rightarrow> string \<Rightarrow> DataRow" where
  "clean_qty row col =
     (let v = row_get row col in
      if v = Str [] \<or> v = Null \<or> v = Undefined \<or> v = Str ''NA'' then row_set row col Null
      else (let num = Number v in row_set row col (if isNaN num then Null else Num num)))"

definition clean_text :: "DataRow \<Rightarrow> string \<Rightarrow> DataRow" where
  "clean_text row col =
     (case row_get row col of
        Str s \<Rightarrow> if s \<noteq> [] then row_set row col (Str (toUpperCase (trim s))) else row
      | _ \<Rightarrow> row)"

definition textColumns :: "string list" where
  "textColumns = [''item_id'', ''item_name'', ''order_id'', ''return_id'']"

definition qtyColumns_of :: "DataRow list \<Rightarrow> string list" where
  "qtyColumns_of df =
     filter (\<lambda>col. str_includes (toLowerCase col) ''qty'')
       (Object_keys (case df of [] \<Rightarrow> [] | r # _ \<Rightarrow> r))"

definition cleanData :: "DataRow list \<Rightarrow> string \<Rightarrow> DataRow list" where
  "cleanData data sourceName =
     (if data = [] then []
      else
        let df = json_copy data;
            qtyColumns = qtyColumns_of df
        in map (\<lambda>row. foldl clean_text (foldl clean_qty row qtyColumns) textColumns) df)"

section \<open>Arithmetic and comparison on numbers\<close>

fun js_sub :: "jsnum \<Rightarrow> jsnum \<Rightarrow> jsnum" where
  "js_sub (Fin a) (Fin b) = fl (a - b)"
| "js_sub NaN _ = NaN"
| "js_sub _ NaN = NaN"
| "js_sub PInf PInf = NaN"
| "js_sub NInf NInf = NaN"
| "js_sub PInf _ = PInf"
| "js_sub NInf _ = NInf"
| "js_sub (Fin a) PInf = NInf"
| "js_sub (Fin a) NInf = PInf"

fun js_gt :: "jsnum \<Rightarrow> jsnum \<Rightarrow> bool" where
  "js_gt (Fin a) (Fin b) = (b < a)"
| "js_gt NaN _ = False"
| "js_gt _ NaN = False"
| "js_gt PInf PInf = False"
| "js_gt PInf _ = True"
| "js_gt NInf _ = False"
| "js_gt (Fin a) PInf = False"
| "js_gt (Fin a) NInf = True"

section \<open>The host: what the program takes from its JavaScript engine\<close>

text \<open>
  Four things are left to the engine and are parameters of the model: how a number is
  printed (\<^verbatim>\<open>String(n)\<close>), what \<^verbatim>\<open>Date.parse\<close> makes of a string outside the
  date-only ISO form, the local time zone adjustment (at a UTC time, and at a local
  time), and the order in which \<^verbatim>\<open>Array.prototype.sort\<close> leaves the rows when its
  comparator is not a consistent one.
\<close>

record host =
  numberToString :: "jsnum \<Rightarrow> string"
  dateParseFallback :: "string \<Rightarrow> jsnum"
  LocalTZA_utc :: "int \<Rightarrow> int"
  LocalTZA_local :: "int \<Rightarrow> int"
  sortInconsistent ::
    "(DataRow \<Rightarrow> DataRow \<Rightarrow> jsnum) \<Rightarrow> DataRow list \<Rightarrow> DataRow list"

section \<open>Dates\<close>

definition msPerDay :: int where
  "msPerDay = 86400000"

definition DayFromYear :: "int \<Rightarrow> int" where
  "DayFromYear y =
     365 * (y - 1970) + (y - 1969) div 4 - (y - 1901) div 100 + (y - 1601) div 400"

definition InLeapYear :: "int \<Rightarrow> bool" where
  "InLeapYear y =
     (if y mod 4 \<noteq> 0 then False else if y mod 100 \<noteq> 0 then True else y mod 400 = 0)"

definition daysBeforeMonth :: "int \<Rightarrow> int \<Rightarrow> int" where
  "daysBeforeMonth y m =
     [0, 31, 59, 90, 120, 151, 181, 212, 243, 273, 304, 334] ! nat (m - 1)
       + (if InLeapYear y \<and> 2 < m then 1 else 0)"

definition daysInMonth :: "int \<Rightarrow> int \<Rightarrow> int" where
  "daysInMonth y m =
     (if m = 2 then (if InLeapYear y then 29 else 28)
      else if m = 4 \<or> m = 6 \<or> m = 9 \<or> m = 11 then 30 else 31)"

text \<open>
  The date-only form \<^verbatim>\<open>YYYY-MM-DD\<close> of the ECMAScript date-time string format, with a
  month and a day that exist: midnight UTC of that day, in milliseconds since the epoch.
\<close>

definition isoDateOnly :: "string \<Rightarrow> int option" where
  "isoDateOnly s =
     (if length s = 10 \<and> list_all is_digit (take 4 s) \<and> s ! 4 = CHR ''-''
         \<and> list_all is_digit (take 2 (drop 5 s)) \<and> s ! 7 = CHR ''-''
         \<and> list_all is_digit (drop 8 s)
      then
        (let y = int (digits_val (take 4 s)); m = int (digits_val (take 2 (drop 5 s)));
             d = int (digits_val (drop 8 s))
         in if 1 \<le> m \<and> m \<le> 12 \<and> 1 \<le> d \<and> d \<le> daysInMonth y m
            then Some ((DayFromYear y + daysBeforeMonth y m + d - 1) * msPerDay)
            else None)
      else None)"

text \<open>\<^verbatim>\<open>TimeClip\<close>: a time value is an integer of magnitude at most 8.64e15, or \<^verbatim>\<open>NaN\<close>.\<close>

fun TimeClip :: "jsnum \<Rightarrow> jsnum" where
  "TimeClip (Fin q) =
     (if 8640000000000000 < \<bar>q\<bar> then NaN
      else Fin (of_int (if 0 \<le> q then \<lfloor>q\<rfloor> else - \<lfloor>- q\<rfloor>)))"
| "TimeClip _ = NaN"

definition Date_parse :: "host \<Rightarrow> string \<Rightarrow> jsnum" where
  "Date_parse h s =
     (case isoDateOnly s of
        Some t \<Rightarrow> Fin (of_int t)
      | None \<Rightarrow> TimeClip (dateParseFallback h s))"

text \<open>\<^verbatim>\<open>new Date(v).getTime()\<close>.\<close>

fun Date_getTime :: "host \<Rightarrow> jsval \<Rightarrow> jsnum" where
  "Date_getTime h (Str s) = Date_parse h s"
| "Date_getTime h v = TimeClip (Number v)"

section \<open>The tabular parser and the export\<close>

text \<open>
  \<^verbatim>\<open>parseCSV\<close>: split on commas, pair each data line with the trimmed header. The row
  of a line starts as \<^verbatim>\<open>{}\<close> and is filled by \<^verbatim>\<open>obj[nextKey] = ...\<close>. Under the name
  \<^verbatim>\<open>__proto__\<close> this assignment reaches the accessor that the object inherits from
  \<^verbatim>\<open>Object.prototype\<close>: a string is dropped, and \<^verbatim>\<open>null\<close> cuts the object off from
  \<^verbatim>\<open>Object.prototype\<close>, after which the name is stored like any other. So the fold
  carries, next to the row, whether the row still inherits.
\<close>

definition parseField :: "string list \<Rightarrow> nat \<Rightarrow> jsval" where
  "parseField values index =
     (let value = (if index < length values \<and> trim (values ! index) \<noteq> []
                   then Str (trim (values ! index)) else Null)
      in case value of
           Str v \<Rightarrow> if startsWith v [CHR 0x22] \<and> endsWith v [CHR 0x22]
                    then Str (butlast (tl v)) else Str v
         | _ \<Rightarrow> value)"

definition assignField :: "DataRow \<times> bool \<Rightarrow> string \<Rightarrow> jsval \<Rightarrow> DataRow \<times> bool" where
  "assignField ob k v =
     (case ob of (obj, inherits) \<Rightarrow>
        if k = ''__proto__'' \<and> inherits then (obj, v \<noteq> Null)
        else (row_set obj k v, inherits))"

definition parseLine :: "string list \<Rightarrow> string \<Rightarrow> DataRow" where
  "parseLine header line =
     (let values = split CHR '','' line
      in fst (foldl (\<lambda>obj (nextKey, index). assignField obj nextKey (parseField values index))
                ([], True) (zip header [0 ..< length header])))"

definition parseCSV :: "string \<Rightarrow> DataRow list" where
  "parseCSV text =
     (let lines = split_lines (trim text) in
      if length lines < 2 then []
      else (let header = map trim (split CHR '','' (hd lines))
            in map (parseLine header) (tl lines)))"




section \<open>JavaScript maps and sorting\<close>

text \<open>
  A \<^verbatim>\<open>Map\<close> keeps its entries in insertion order; \<^verbatim>\<open>set\<close> on a key it has overwrites
  the value where it stands. On the values of this model its key equality
  (\<^verbatim>\<open>SameValueZero\<close>) is equality.
\<close>

fun Map_set :: "('k \<times> 'v) list \<Rightarrow> 'k \<Rightarrow> 'v \<Rightarrow> ('k \<times> 'v) list" where
  "Map_set [] k v = [(k, v)]"
| "Map_set ((k', v') # m) k v =
     (if k' = k then (k, v) # m else (k', v') # Map_set m k v)"

definition Map_has :: "('k \<times> 'v) list \<Rightarrow> 'k \<Rightarrow> bool" where
  "Map_has m k = (map_of m k \<noteq> None)"

definition Map_values :: "('k \<times> 'v) list \<Rightarrow> 'v list" where
  "Map_values m = map snd m"

text \<open>
  \<^verbatim>\<open>Array.prototype.sort\<close> with a comparator. A comparator is consistent on the elements
  when it never answers \<^verbatim>\<open>NaN\<close> and its three relations (negative, zero, positive)
  are as the language asks: zero on equal arguments, zero symmetric, all three
  transitive. The sort is then the stable one: an element moves behind another only when
  the comparator is positive on the pair. With any other comparator the language leaves
  the order to the engine.
\<close>

definition consistentComparator :: "('a \<Rightarrow> 'a \<Rightarrow> jsnum) \<Rightarrow> 'a list \<Rightarrow> bool" where
  "consistentComparator cmp xs =
     (let lt = (\<lambda>a b. js_gt (Fin 0) (cmp a b)); eq = (\<lambda>a b. cmp a b = Fin 0);
          gt = (\<lambda>a b. js_gt (cmp a b) (Fin 0));
          transitive = (\<lambda>r. list_all (\<lambda>a. list_all (\<lambda>b. list_all (\<lambda>c.
                          r a b \<and> r b c \<longrightarrow> r a c) xs) xs) xs)
      in list_all (\<lambda>a. list_all (\<lambda>b. \<not> isNaN (cmp a b)) xs) xs
         \<and> list_all (\<lambda>a. eq a a) xs
         \<and> list_all (\<lambda>a. list_all (\<lambda>b. eq a b \<longrightarrow> eq b a) xs) xs
         \<and> transitive eq \<and> transitive lt \<and> transitive gt)"

fun sort_insert :: "('a \<Rightarrow> 'a \<Rightarrow> jsnum) \<Rightarrow> 'a \<Rightarrow> 'a list \<Rightarrow> 'a list" where
  "sort_insert cmp x [] = [x]"
| "sort_insert cmp x (y # ys) =
     (if js_gt (cmp x y) (Fin 0) then y # sort_insert cmp x ys else x # y # ys)"

definition js_sort ::
  "host \<Rightarrow> (DataRow \<Rightarrow> DataRow \<Rightarrow> jsnum) \<Rightarrow> DataRow list \<Rightarrow> DataRow list" where
  "js_sort h cmp xs =
     (if consistentComparator cmp xs then foldr (sort_insert cmp) xs []
      else sortInconsistent h cmp xs)"

section \<open>The inconsistency detector\<close>

record Inconsistency =
  type :: string
  details :: "DataRow list"

definition outerJoin ::
  "DataRow list \<Rightarrow> DataRow list \<Rightarrow> string \<Rightarrow> string \<Rightarrow> string \<times> string \<Rightarrow> DataRow list" where
  "outerJoin left right key valCol suffixes =
     (let m1 = foldl (\<lambda>m row.
                 if truthy (row_get row key)
                 then Map_set m (row_get row key)
                        (row_set (row_set [] key (row_get row key))
                           (valCol @ fst suffixes) (row_get row valCol))
                 else m) [] left;
          m2 = foldl (\<lambda>m row.
                 if \<not> truthy (row_get row key) then m
                 else (let existing = (case map_of m (row_get row key) of
                                         Some e \<Rightarrow> e
                                       | None \<Rightarrow> row_set [] key (row_get row key))
                       in Map_set m (row_get row key)
                            (row_set existing (valCol @ snd suffixes) (row_get row valCol))))
               m1 right
      in Map_values m2)"

definition discrepancy :: "string \<Rightarrow> string \<Rightarrow> DataRow \<Rightarrow> bool" where
  "discrepancy col1 col2 row =
     (let val1 = row_get row col1; val2 = row_get row col2 in
      if val1 = Null \<or> val2 = Null then False
      else (let diff = js_sub (Number val1) (Number val2)
            in \<not> isNaN diff \<and> diff \<noteq> Fin 0))"

definition identifyInconsistencies :: "DataRow list \<Rightarrow> DataRow list \<Rightarrow> Inconsistency list" where
  "identifyInconsistencies legacy spreadsheet =
     (let mergedInv = outerJoin legacy spreadsheet ''item_id'' ''inventory_qty''
                        (''_legacy'', ''_spreadsheet'');
          qtyDiscrepancies =
            filter (discrepancy ''inventory_qty_legacy'' ''inventory_qty_spreadsheet'') mergedInv;
          inc1 = (if qtyDiscrepancies \<noteq> []
                  then [\<lparr>type = ''Inventory Quantity Discrepancy'', details = qtyDiscrepancies\<rparr>]
                  else []);
          mergedOrders = outerJoin legacy spreadsheet ''order_id'' ''order_qty''
                           (''_legacy'', ''_spreadsheet'');
          orderDiscrepancies =
            filter (discrepancy ''order_qty_legacy'' ''order_qty_spreadsheet'') mergedOrders;
          inc2 = (if orderDiscrepancies \<noteq> []
                  then [\<lparr>type = ''Order Quantity Discrepancy'', details = orderDiscrepancies\<rparr>]
                  else [])
      in inc1 @ inc2)"

section \<open>The consolidator\<close>

record Consolidated =
  inventory :: "DataRow list"
  orders :: "DataRow list"
  returns :: "DataRow list"

definition byRecency :: "host \<Rightarrow> DataRow \<Rightarrow> DataRow \<Rightarrow> jsnum" where
  "byRecency h a b =
     js_sub (Date_getTime h (row_get b ''last_updated''))
            (Date_getTime h (row_get a ''last_updated''))"

definition firstPerKey :: "string \<Rightarrow> DataRow list \<Rightarrow> (jsval \<times> DataRow) list" where
  "firstPerKey key rows =
     foldl (\<lambda>m row. if \<not> Map_has m (row_get row key) then Map_set m (row_get row key) row else m)
       [] rows"

definition consolidateData ::
  "host \<Rightarrow> DataRow list \<Rightarrow> DataRow list \<Rightarrow> DataRow list \<Rightarrow> DataRow list \<Rightarrow> Consolidated" where
  "consolidateData h legacy spreadsheet supplier reverseLogistics =
     (let legacyInv = map (\<lambda>r. [(''item_id'', row_get r ''item_id''),
                                 (''item_name'', row_get r ''item_name''),
                                 (''inventory_qty'', row_get r ''inventory_qty''),
                                 (''last_updated'', row_get r ''last_updated''),
                                 (''_source'', Str ''Legacy'')]) legacy;
          spreadsheetInv = map (\<lambda>r. [(''item_id'', row_get r ''item_id''),
                                      (''item_name'', row_get r ''item_name''),
                                      (''inventory_qty'', row_get r ''inventory_qty''),
                                      (''last_updated'', row_get r ''last_updated''),
                                      (''_source'', Str ''Spreadsheet'')]) spreadsheet;
          supplierInv = map (\<lambda>r. [(''item_id'', row_get r ''item_id''),
                                   (''item_name'', row_get r ''item_name''),
                                   (''inventory_qty'', row_get r ''shipment_qty''),
                                   (''last_updated'', row_get r ''shipment_date''),
                                   (''_source'', Str ''Supplier'')]) supplier;
          combinedInv = js_sort h (byRecency h)
            (filter (\<lambda>r. truthy (row_get r ''item_id'') \<and> truthy (row_get r ''last_updated''))
               (legacyInv @ spreadsheetInv @ supplierInv));
          uniqueInv = firstPerKey ''item_id'' combinedInv;
          combinedOrders = js_sort h (byRecency h)
            (filter (\<lambda>r. truthy (row_get r ''order_id'') \<and> truthy (row_get r ''last_updated''))
               (map (\<lambda>r. [(''order_id'', row_get r ''order_id''),
                           (''order_qty'', row_get r ''order_qty''),
                           (''last_updated'', row_get r ''last_updated''),
                           (''_source'', Str ''Legacy'')]) legacy
                @ map (\<lambda>r. [(''order_id'', row_get r ''order_id''),
                             (''order_qty'', row_get r ''order_qty''),
                             (''last_updated'', row_get r ''last_updated''),
                             (''_source'', Str ''Spreadsheet'')]) spreadsheet));
          uniqueOrders = firstPerKey ''order_id'' combinedOrders;
          consolidatedReturns =
            map (\<lambda>r. row_set r ''_source'' (Str ''ReverseLogistics'')) reverseLogistics
      in \<lparr>inventory = Map_values uniqueInv, orders = Map_values uniqueOrders,
          returns = consolidatedReturns\<rparr>)"

section \<open>The disruption analyzer\<close>

fun js_mul :: "jsnum \<Rightarrow> jsnum \<Rightarrow> jsnum" where
  "js_mul (Fin a) (Fin b) = fl (a * b)"
| "js_mul NaN _ = NaN"
| "js_mul _ NaN = NaN"
| "js_mul (Fin a) y = (if a = 0 then NaN else if 0 < a then y else neg y)"
| "js_mul x (Fin b) = (if b = 0 then NaN else if 0 < b then x else neg x)"
| "js_mul PInf y = y"
| "js_mul NInf y = neg y"

fun js_div :: "jsnum \<Rightarrow> jsnum \<Rightarrow> jsnum" where
  "js_div (Fin a) (Fin b) =
     (if b = 0 then (if a = 0 then NaN else if 0 < a then PInf else NInf) else fl (a / b))"
| "js_div NaN _ = NaN"
| "js_div _ NaN = NaN"
| "js_div (Fin a) _ = Fin 0"
| "js_div x (Fin b) = (if 0 \<le> b then x else neg x)"
| "js_div _ _ = NaN"

text \<open>
  \<^verbatim>\<open>x.toFixed(1)\<close> on a finite \<open>x\<close> of magnitude below \<open>10\<^sup>2\<^sup>1\<close> is the decimal numeral
  \<open>n / 10\<close> for the integer \<open>n\<close> with \<open>n / 10 - x\<close> nearest to zero, the larger \<open>n\<close> on a
  tie; the numeral is carried as the rational it denotes. \<^verbatim>\<open>parseFloat\<close> reads it back as
  the nearest double. Any other number is printed in full and read back as itself.
\<close>

definition toFixed1 :: "rat \<Rightarrow> rat" where
  "toFixed1 x =
     (if x < 0 then - (of_int \<lfloor>10 * (- x) + 1 / 2\<rfloor> / 10) else of_int \<lfloor>10 * x + 1 / 2\<rfloor> / 10)"

fun parseFloat_toFixed1 :: "jsnum \<Rightarrow> jsnum" where
  "parseFloat_toFixed1 (Fin x) = (if 10 ^ 21 \<le> \<bar>x\<bar> then Fin x else fl (toFixed1 x))"
| "parseFloat_toFixed1 n = n"

record MissingData =
  count :: nat
  total :: nat
  percentage :: jsnum

record DisruptionAnalysis =
  missingInventoryData :: MissingData
  missingOrderData :: MissingData
  inTransitOrders :: "DataRow list"

definition missingField :: "DataRow \<Rightarrow> string \<Rightarrow> bool" where
  "missingField r field =
     (row_get r field = Null \<or> row_get r field = Undefined \<or> row_get r field = Str [])"

definition percentOf :: "nat \<Rightarrow> nat \<Rightarrow> jsnum" where
  "percentOf missing totalRecords =
     (if 0 < totalRecords
      then parseFloat_toFixed1
             (js_mul (js_div (Fin (of_nat missing)) (Fin (of_nat totalRecords))) (Fin 100))
      else Fin 0)"

text \<open>
  \<^verbatim>\<open>s.replace(/(\d+)\/(\d+)\/(\d+)/, '$3-$1-$2')\<close>: the leftmost run
  \<open>digits/digits/digits\<close> is rewritten, the rest of the string is kept.
\<close>

definition matchMDY :: "string \<Rightarrow> (string \<times> string \<times> string \<times> string) option" where
  "matchMDY s =
     (let d1 = takeWhile is_digit s; r1 = dropWhile is_digit s in
      if d1 \<noteq> [] \<and> r1 \<noteq> [] \<and> hd r1 = CHR ''/'' then
        (let d2 = takeWhile is_digit (tl r1); r2 = dropWhile is_digit (tl r1) in
         if d2 \<noteq> [] \<and> r2 \<noteq> [] \<and> hd r2 = CHR ''/'' then
           (let d3 = takeWhile is_digit (tl r2); r3 = dropWhile is_digit (tl r2) in
            if d3 \<noteq> [] then Some (d1, d2, d3, r3) else None)
         else None)
      else None)"

fun replaceMDY :: "string \<Rightarrow> string" where
  "replaceMDY [] = []"
| "replaceMDY (c # cs) =
     (case matchMDY (c # cs) of
        Some (d1, d2, d3, rest) \<Rightarrow> d3 @ ''-'' @ d1 @ ''-'' @ d2 @ rest
      | None \<Rightarrow> c # replaceMDY cs)"

text \<open>
  \<^verbatim>\<open>twoWeeksAgo\<close>: the evaluation time \<open>now\<close> (milliseconds since the epoch) moved back
  fourteen calendar days in local time by \<^verbatim>\<open>setDate(getDate() - 14)\<close>.
\<close>

definition twoWeeksAgo :: "host \<Rightarrow> int \<Rightarrow> jsnum" where
  "twoWeeksAgo h now =
     (let t = now + LocalTZA_utc h now;
          newDate = t - 14 * msPerDay
      in TimeClip (Fin (of_int (newDate - LocalTZA_local h newDate))))"

text \<open>
  The filter of \<^verbatim>\<open>inTransitOrders\<close>. A \<^verbatim>\<open>shipment_date\<close> that is truthy and not a string
  has no \<^verbatim>\<open>replace\<close> method: the call throws and the \<^verbatim>\<open>catch\<close> returns \<^verbatim>\<open>false\<close>.
\<close>

definition inTransit :: "host \<Rightarrow> int \<Rightarrow> DataRow \<Rightarrow> bool" where
  "inTransit h now r =
     (case row_get r ''shipment_date'' of
        Str s \<Rightarrow> s \<noteq> [] \<and> js_gt (Date_parse h (replaceMDY s)) (twoWeeksAgo h now)
      | _ \<Rightarrow> False)"

definition calculateDisruption ::
  "host \<Rightarrow> int \<Rightarrow> DataRow list \<Rightarrow> DataRow list \<Rightarrow> DataRow list \<Rightarrow> DisruptionAnalysis" where
  "calculateDisruption h now legacy spreadsheet supplier =
     (let REQUIRED_INV_FIELDS = [''item_id'', ''inventory_qty'', ''last_updated''];
          REQUIRED_ORDER_FIELDS = [''order_id'', ''order_qty'', ''last_updated''];
          invRecords = filter (\<lambda>r. truthy (row_get r ''item_id'')) (legacy @ spreadsheet);
          missingInv = length (filter (\<lambda>r. list_ex (missingField r) REQUIRED_INV_FIELDS) invRecords);
          totalInvRecords = length invRecords;
          orderRecords = filter (\<lambda>r. truthy (row_get r ''order_id'')) (legacy @ spreadsheet);
          missingOrders =
            length (filter (\<lambda>r. list_ex (missingField r) REQUIRED_ORDER_FIELDS) orderRecords);
          totalOrderRecords = length orderRecords
      in \<lparr>missingInventoryData =
            \<lparr>count = missingInv, total = totalInvRecords,
             percentage = percentOf missingInv totalInvRecords\<rparr>,
          missingOrderData =
            \<lparr>count = missingOrders, total = totalOrderRecords,
             percentage = percentOf missingOrders totalOrderRecords\<rparr>,
          inTransitOrders = filter (inTransit h now) supplier\<rparr>)"

section \<open>The correction merger\<close>

record SourceData =
  legacy :: "DataRow list"
  spreadsheet :: "DataRow list"
  supplier :: "DataRow list"
  reverseLogistics :: "DataRow list"
  historicalBackup :: "DataRow list option"

text \<open>The two fields of the corrected view (a \<^verbatim>\<open>Partial<ProcessedData>\<close>) that are read.\<close>

record AiFixedData =
  consolidatedInventory :: "DataRow list option"
  consolidatedOrders :: "DataRow list option"

definition updateRow :: "(string \<times> string) list \<Rightarrow> DataRow \<Rightarrow> DataRow \<Rightarrow> DataRow" where
  "updateRow mappings correctedItem row =
     foldl (\<lambda>row (destKey, srcKey).
              if row_get correctedItem srcKey \<noteq> Undefined
              then row_set row destKey (row_get correctedItem srcKey) else row)
       row mappings"

definition updateSource ::
  "DataRow list \<Rightarrow> DataRow list \<Rightarrow> string \<Rightarrow> (string \<times> string) list \<Rightarrow> DataRow list" where
  "updateSource sourceArray consolidatedData idField mappings =
     (let consolidatedMap =
            foldl (\<lambda>m item. Map_set m (row_get item idField) item) [] consolidatedData
      in map (\<lambda>row. case map_of consolidatedMap (row_get row idField) of
                       Some correctedItem \<Rightarrow> updateRow mappings correctedItem row
                     | None \<Rightarrow> row)
           sourceArray)"

definition json_copy_sources :: "SourceData \<Rightarrow> SourceData" where
  "json_copy_sources src =
     \<lparr>legacy = json_copy (legacy src), spreadsheet = json_copy (spreadsheet src),
      supplier = json_copy (supplier src), reverseLogistics = json_copy (reverseLogistics src),
      historicalBackup = map_option json_copy (historicalBackup src)\<rparr>"

definition mergeAiFixesIntoSources :: "SourceData \<Rightarrow> AiFixedData \<Rightarrow> SourceData" where
  "mergeAiFixesIntoSources originalSources aiFixedData =
     (let updatedSources = json_copy_sources originalSources;
          invMapping = [(''item_name'', ''item_name''), (''inventory_qty'', ''inventory_qty''),
                        (''last_updated'', ''last_updated'')];
          u1 = (case consolidatedInventory aiFixedData of
                  Some cInventory \<Rightarrow>
                    updatedSources
                      \<lparr>legacy := updateSource (legacy updatedSources) cInventory ''item_id'' invMapping,
                       spreadsheet :=
                         updateSource (spreadsheet updatedSources) cInventory ''item_id'' invMapping\<rparr>
                | None \<Rightarrow> updatedSources);
          orderMapping = [(''order_qty'', ''order_qty''), (''last_updated'', ''last_updated'')]
      in (case consolidatedOrders aiFixedData of
            Some cOrders \<Rightarrow>
              u1\<lparr>legacy := updateSource (legacy u1) cOrders ''order_id'' orderMapping,
                 spreadsheet := updateSource (spreadsheet u1) cOrders ''order_id'' orderMapping\<rparr>
          | None \<Rightarrow> u1))"

section \<open>The correction collaborator's response\<close>

datatype json =
  JNull | JBool bool | JNum jsnum | JStr string | JArr "json list" | JObj "(string \<times> json) list"

text \<open>
  The call \<^verbatim>\<open>ai.models.generateContent\<close> either rejects, or resolves with a response
  whose \<^verbatim>\<open>text\<close> is a string or \<^verbatim>\<open>undefined\<close>.
\<close>

datatype response = Rejected | Resolved "string option"

definition is_word :: "char \<Rightarrow> bool" where
  "is_word c =
     (let n = of_char c :: nat in
      (48 \<le> n \<and> n \<le> 57) \<or> (65 \<le> n \<and> n \<le> 90) \<or> (97 \<le> n \<and> n \<le> 122) \<or> n = 95)"

text \<open>
  The second group of \<^verbatim>\<open>/^```(\w*)?\s*\n?(.*?)\n?\s*```$/s\<close> when the string matches: what
  stands between the opening fence (with its language tag and white space) and the
  closing fence (with the white space before it).
\<close>

definition fenceMatch :: "string \<Rightarrow> string option" where
  "fenceMatch s =
     (if 6 \<le> length s \<and> startsWith s ''```'' \<and> endsWith s ''```''
      then Some (rev (dropWhile is_ws (rev (dropWhile is_ws (dropWhile is_word
                   (drop 3 (take (length s - 3) s)))))))
      else None)"

definition invalidFormatMessage :: string where
  "invalidFormatMessage = ''AI returned an invalid data format. Please try again.''"

definition serviceFailedMessage :: string where
  "serviceFailedMessage =
     ''The AI service failed to process the request. Please check your connection or API key.''"

text \<open>
  The inner \<^verbatim>\<open>try\<close>: \<^verbatim>\<open>JSON.parse\<close> (a parameter: \<open>None\<close> when it throws), the read of
  \<^verbatim>\<open>parsedData.report\<close> (which throws on \<^verbatim>\<open>null\<close>), and the fallback for a report that
  is a string. Its \<^verbatim>\<open>catch\<close> throws the invalid-format error.
\<close>

definition parseResponse :: "(string \<Rightarrow> json option) \<Rightarrow> string \<Rightarrow> string + json" where
  "parseResponse JSON_parse jsonStr =
     (case JSON_parse jsonStr of
        None \<Rightarrow> Inl invalidFormatMessage
      | Some JNull \<Rightarrow> Inl invalidFormatMessage
      | Some (JObj props) \<Rightarrow>
          (case map_of props ''report'' of
             Some (JStr r) \<Rightarrow>
               Inr (JObj (Map_set props ''report''
                      (JObj [(''fixesApplied'', JArr [JStr r]),
                             (''rootCauseAnalysis'', JArr []),
                             (''recommendations'', JArr [])])))
           | _ \<Rightarrow> Inr (JObj props))
      | Some parsedData \<Rightarrow> Inr parsedData)"

text \<open>
  \<^verbatim>\<open>getAiFixSuggestions\<close>: everything, the inner \<^verbatim>\<open>try\<close> and its \<^verbatim>\<open>throw\<close> included,
  stands inside the outer \<^verbatim>\<open>try\<close>, whose \<^verbatim>\<open>catch\<close> throws the service error.
\<close>

definition getAiFixSuggestions :: "(string \<Rightarrow> json option) \<Rightarrow> response \<Rightarrow> string + json" where
  "getAiFixSuggestions JSON_parse resp =
     (let attempt =
            (case resp of
               Rejected \<Rightarrow> Inl ''rejected''
             | Resolved None \<Rightarrow> Inl ''TypeError''
             | Resolved (Some text) \<Rightarrow>
                 (let jsonStr = trim text;
                      jsonStr' = (case fenceMatch jsonStr of
                                    Some g \<Rightarrow> if g \<noteq> [] then trim g else jsonStr
                                  | None \<Rightarrow> jsonStr)
                  in parseResponse JSON_parse jsonStr'))
      in case attempt of
           Inl error \<Rightarrow> Inl serviceFailedMessage
         | Inr parsedData \<Rightarrow> Inr parsedData)"

section \<open>Auxiliary notions for the proofs\<close>

text \<open>A map from keys to rows whose keys are distinct and are each row's own key field.\<close>

definition keyed :: "string \<Rightarrow> (jsval \<times> DataRow) list \<Rightarrow> bool" where
  "keyed key m = (distinct (map fst m) \<and> list_all (\<lambda>(k, r). row_get r key = k) m)"

text \<open>
  A host used to run the model on concrete inputs: UTC, no fallback date parser, rows
  left in place by a sort with an inconsistent comparator. (Its number printer is a
  placeholder; no number is printed on those inputs.)
\<close>

definition host0 :: host where
  "host0 = \<lparr>numberToString = (\<lambda>n. ''0''), dateParseFallback = (\<lambda>s. NaN),
            LocalTZA_utc = (\<lambda>t. 0), LocalTZA_local = (\<lambda>t. 0),
            sortInconsistent = (\<lambda>cmp xs. xs)\<rparr>"

text \<open>The outcome of the quantity coercion: \<^verbatim>\<open>null\<close>, or a number other than \<^verbatim>\<open>NaN\<close>.\<close>

definition numberOrNull :: "jsval \<Rightarrow> bool" where
  "numberOrNull v = (v = Null \<or> (\<exists>n. v = Num n \<and> \<not> isNaN n))"




text \<open>The record that \<^verbatim>\<open>calculateDisruption\<close> builds from a list of keyed records.\<close>

definition missingStats :: "string list \<Rightarrow> DataRow list \<Rightarrow> MissingData" where
  "missingStats required records =
     \<lparr>count = length (filter (\<lambda>r. list_ex (missingField r) required) records),
      total = length records,
      percentage = percentOf (length (filter (\<lambda>r. list_ex (missingField r) required) records))
                     (length records)\<rparr>"

text \<open>
  A value that the JSON copy returns as it is, and a text that trimming and upper-casing
  leave as it is.
\<close>

definition jsonStable :: "jsval \<Rightarrow> bool" where
  "jsonStable v = (v = Null \<or> (\<exists>s. v = Str s) \<or> (\<exists>q. v = Num (Fin q)))"

definition normalText :: "jsval \<Rightarrow> bool" where
  "normalText v = (case v of Str s \<Rightarrow> toUpperCase (trim s) = s | _ \<Rightarrow> True)"

text \<open>A value that is neither \<^verbatim>\<open>undefined\<close> nor \<^verbatim>\<open>NaN\<close>, and one that is not infinite.\<close>

definition definedValue :: "jsval \<Rightarrow> bool" where
  "definedValue v = (v \<noteq> Undefined \<and> v \<noteq> Num NaN)"

definition notInfinite :: "jsval \<Rightarrow> bool" where
  "notInfinite v = (v \<noteq> Num PInf \<and> v \<noteq> Num NInf)"

section \<open>Consolidation: one row per key\<close>

lemma Map_set_fresh: "map_of m k = None \<Longrightarrow> Map_set m k v = m @ [(k, v)]"
  by (induction m) (auto split: if_splits)

lemma keyed_step:
  "keyed key m \<Longrightarrow>
   keyed key (if \<not> Map_has m (row_get row key) then Map_set m (row_get row key) row else m)"
  by (auto simp: keyed_def Map_has_def Map_set_fresh map_of_eq_None_iff)

lemma keyed_foldl:
  "keyed key m \<Longrightarrow>
   keyed key (foldl (\<lambda>m row. if \<not> Map_has m (row_get row key)
                              then Map_set m (row_get row key) row else m) m rows)"
proof (induction rows arbitrary: m)
  case Nil
  then show ?case by simp
next
  case (Cons row rows)
  have "keyed key (if \<not> Map_has m (row_get row key)
                   then Map_set m (row_get row key) row else m)"
    by (rule keyed_step [OF Cons.prems])
  from Cons.IH [OF this] show ?case by simp
qed

lemma keyed_firstPerKey: "keyed key (firstPerKey key rows)"
  unfolding firstPerKey_def by (rule keyed_foldl) (simp add: keyed_def)

lemma keyed_values:
  "keyed key m \<Longrightarrow> map (\<lambda>r. row_get r key) (Map_values m) = map fst m"
  by (induction m) (auto simp: keyed_def Map_values_def)

lemma firstPerKey_distinct:
  "distinct (map (\<lambda>r. row_get r key) (Map_values (firstPerKey key rows)))"
  using keyed_firstPerKey [of key rows] keyed_values [of key "firstPerKey key rows"]
  by (simp add: keyed_def)

text \<open>
  Claim C3. Whatever the four sources hold, no two rows of the consolidated inventory
  have the same \<^verbatim>\<open>item_id\<close>, and no two rows of the consolidated orders have the same
  \<^verbatim>\<open>order_id\<close>.
\<close>

theorem consolidateData_unique_keys:
  "distinct (map (\<lambda>r. row_get r ''item_id'')
       (inventory (consolidateData h l s su rl)))
   \<and> distinct (map (\<lambda>r. row_get r ''order_id'')
       (orders (consolidateData h l s su rl)))"
  by (simp add: consolidateData_def Let_def firstPerKey_distinct)

section \<open>Failures of the correction step\<close>

lemma getAiFixSuggestions_cases:
  "getAiFixSuggestions JSON_parse resp = Inl serviceFailedMessage
   \<or> (\<exists>d. getAiFixSuggestions JSON_parse resp = Inr d)"
  by (auto simp: getAiFixSuggestions_def Let_def split: sum.splits)

lemma messages_differ: "invalidFormatMessage \<noteq> serviceFailedMessage"
  by (simp add: invalidFormatMessage_def serviceFailedMessage_def)

lemma getAiFixSuggestions_unparsable:
  "JSON_parse (case fenceMatch (trim text) of
                 Some g \<Rightarrow> if g \<noteq> [] then trim g else trim text
               | None \<Rightarrow> trim text) = None
   \<Longrightarrow> getAiFixSuggestions JSON_parse (Resolved (Some text)) = Inl serviceFailedMessage"
  by (simp add: getAiFixSuggestions_def Let_def parseResponse_def)

text \<open>
  Claim C1 (the code departs from it). Whatever the collaborator answered and whatever
  \<^verbatim>\<open>JSON.parse\<close> made of it, a failure of \<^verbatim>\<open>getAiFixSuggestions\<close> carries the service
  message: the invalid-format error thrown for an unparsable response is caught by the
  outer handler and never reaches the caller, and a rejected call fails with the same
  message.
\<close>

theorem getAiFixSuggestions_one_failure:
  "getAiFixSuggestions JSON_parse resp \<noteq> Inl invalidFormatMessage
   \<and> (getAiFixSuggestions JSON_parse resp = Inl serviceFailedMessage
      \<or> (\<exists>d. getAiFixSuggestions JSON_parse resp = Inr d))
   \<and> getAiFixSuggestions JSON_parse Rejected = Inl serviceFailedMessage"
proof -
  have "getAiFixSuggestions JSON_parse Rejected = Inl serviceFailedMessage"
    by (simp add: getAiFixSuggestions_def)
  moreover have "getAiFixSuggestions JSON_parse resp \<noteq> Inl invalidFormatMessage"
    using getAiFixSuggestions_cases [of JSON_parse resp] messages_differ by auto
  ultimately show ?thesis
    using getAiFixSuggestions_cases [of JSON_parse resp] by blast
qed

section \<open>Cleaning: which fields are coerced\<close>

lemma row_get_row_set: "row_get (row_set r c v) k = (if c = k then v else row_get r k)"
  by (induction r) (auto simp: row_get_def)

lemma row_get_clean_qty: "c \<noteq> k \<Longrightarrow> row_get (clean_qty r c) k = row_get r k"
  by (simp add: clean_qty_def Let_def row_get_row_set)

lemma row_get_clean_text: "c \<noteq> k \<Longrightarrow> row_get (clean_text r c) k = row_get r k"
  by (simp add: clean_text_def row_get_row_set split: jsval.splits)

lemma row_get_foldl_clean_qty:
  "k \<notin> set cs \<Longrightarrow> row_get (foldl clean_qty r cs) k = row_get r k"
  by (induction cs arbitrary: r) (auto simp: row_get_clean_qty)

lemma row_get_foldl_clean_text:
  "k \<notin> set cs \<Longrightarrow> row_get (foldl clean_text r cs) k = row_get r k"
  by (induction cs arbitrary: r) (auto simp: row_get_clean_text)

lemma textColumns_all_not_qty:
  "list_all (\<lambda>k. \<not> str_includes (toLowerCase k) ''qty'') textColumns"
  by code_simp

lemma textColumns_not_qty:
  "k \<in> set textColumns \<Longrightarrow> \<not> str_includes (toLowerCase k) ''qty''"
  using textColumns_all_not_qty by (simp add: list_all_iff)

lemma row_get_json_row:
  "row_get r k \<noteq> Undefined \<Longrightarrow> row_get (json_row r) k = json_value (row_get r k)"
  by (induction r) (auto simp: row_get_def json_row_def split: if_splits)

lemma set_ownKeys: "set (ownKeys ks) = set ks"
  by (auto simp: ownKeys_def)

lemma set_Object_keys: "set (Object_keys r) = fst ` set r"
  by (simp add: Object_keys_def set_ownKeys)

lemma keys_json_row: "set (Object_keys (json_row r)) \<subseteq> set (Object_keys r)"
  by (force simp: set_Object_keys json_row_def)

lemma cleanData_nth:
  "i < length d \<Longrightarrow>
   cleanData d sn ! i =
     foldl clean_text (foldl clean_qty (json_row (d ! i)) (qtyColumns_of (json_copy d)))
       textColumns"
  by (auto simp: cleanData_def Let_def json_copy_def)

lemma qtyColumns_of_subset:
  "d \<noteq> [] \<Longrightarrow> set (qtyColumns_of (json_copy d)) \<subseteq> set (Object_keys (hd d))"
  using keys_json_row by (cases d) (auto simp: qtyColumns_of_def json_copy_def)

text \<open>
  Claim C10. The quantity columns come from the first row alone: when the first row has
  no field \<open>k\<close>, a field \<open>k\<close> of a later row keeps its value (a string, a finite number
  or \<^verbatim>\<open>null\<close>) although its name contains \<^verbatim>\<open>qty\<close>; a string stays a string.
\<close>

theorem cleanData_first_row_decides:
  assumes "i < length d" and "0 < i"
    and "str_includes (toLowerCase k) ''qty''"
    and "k \<notin> set (Object_keys (hd d))"
    and "row_get (d ! i) k = v"
    and "v = Null \<or> (\<exists>s. v = Str s) \<or> (\<exists>q. v = Num (Fin q))"
  shows "row_get (cleanData d sn ! i) k = v"
proof -
  from assms(1) have ne: "d \<noteq> []" by auto
  have k1: "k \<notin> set (qtyColumns_of (json_copy d))"
    using qtyColumns_of_subset [OF ne] assms(4) by auto
  have k2: "k \<notin> set textColumns"
    using textColumns_not_qty assms(3) by auto
  have "row_get (cleanData d sn ! i) k = row_get (json_row (d ! i)) k"
    by (simp add: cleanData_nth [OF assms(1)] row_get_foldl_clean_text [OF k2]
        row_get_foldl_clean_qty [OF k1])
  also have "\<dots> = json_value v"
    using assms(5,6) by (auto simp: row_get_json_row)
  also have "\<dots> = v" using assms(6) by auto
  finally show ?thesis .
qed

section \<open>In-transit shipments\<close>

text \<open>
  Claim C9. A supplier row whose \<^verbatim>\<open>shipment_date\<close> is a non-empty string that parses
  (after the MM/DD/YYYY rewrite) to a time strictly after \<^verbatim>\<open>twoWeeksAgo\<close> is in
  \<^verbatim>\<open>inTransitOrders\<close>; nothing bounds the date from above, so a date after the
  evaluation time is in transit as well.
\<close>

theorem inTransit_no_upper_cutoff:
  assumes "r \<in> set su"
    and "row_get r ''shipment_date'' = Str d" and "d \<noteq> []"
    and "Date_parse h (replaceMDY d) = Fin t"
    and "twoWeeksAgo h now = Fin c"
    and "c < t"
  shows "r \<in> set (inTransitOrders (calculateDisruption h now l s su))"
  using assms by (simp add: calculateDisruption_def Let_def inTransit_def)

section \<open>Cleaning: quantities\<close>

lemma clean_qty_good_same: "numberOrNull (row_get (clean_qty r k) k)"
  by (simp add: clean_qty_def Let_def row_get_row_set numberOrNull_def)

lemma clean_qty_good_keep:
  "numberOrNull (row_get r k) \<Longrightarrow> numberOrNull (row_get (clean_qty r c) k)"
  by (cases "c = k") (simp_all add: clean_qty_good_same row_get_clean_qty)

lemma foldl_clean_qty_good:
  "numberOrNull (row_get r k) \<or> k \<in> set cs \<Longrightarrow>
   numberOrNull (row_get (foldl clean_qty r cs) k)"
proof (induction cs arbitrary: r)
  case Nil
  then show ?case by simp
next
  case (Cons c cs)
  have "numberOrNull (row_get (clean_qty r c) k) \<or> k \<in> set cs"
    using Cons.prems clean_qty_good_same [of r k] clean_qty_good_keep [of r k c] by auto
  from Cons.IH [OF this] show ?case by simp
qed

lemma clean_text_good:
  "numberOrNull (row_get r k) \<Longrightarrow> numberOrNull (row_get (clean_text r c) k)"
  by (cases "c = k")
     (auto simp: clean_text_def row_get_row_set numberOrNull_def split: jsval.splits)

lemma foldl_clean_text_good:
  "numberOrNull (row_get r k) \<Longrightarrow> numberOrNull (row_get (foldl clean_text r cs) k)"
  by (induction cs arbitrary: r) (auto simp: clean_text_good)

text \<open>
  Claim C5, amended. In every cleaned row, every field that the first row of the copy has
  and whose lower-cased name contains \<^verbatim>\<open>qty\<close> holds \<^verbatim>\<open>null\<close> or a number other than
  \<^verbatim>\<open>NaN\<close>; it never holds a string.
\<close>

theorem cleanData_qty_number_or_null:
  assumes "d \<noteq> []"
    and "k \<in> set (Object_keys (json_row (hd d)))"
    and "str_includes (toLowerCase k) ''qty''"
    and "r \<in> set (cleanData d sn)"
  shows "row_get r k = Null \<or> (\<exists>n. row_get r k = Num n \<and> \<not> isNaN n)"
proof -
  have q: "k \<in> set (qtyColumns_of (json_copy d))"
    using assms(1,2,3) by (cases d) (auto simp: qtyColumns_of_def json_copy_def)
  from assms(1,4) obtain r0 where
    r: "r = foldl clean_text (foldl clean_qty r0 (qtyColumns_of (json_copy d))) textColumns"
    by (auto simp: cleanData_def Let_def)
  have "numberOrNull (row_get r k)"
    unfolding r by (intro foldl_clean_text_good foldl_clean_qty_good disjI2 q)
  then show ?thesis by (simp add: numberOrNull_def)
qed

section \<open>The correction merger: what the copy keeps\<close>

lemma merge_keeps_copy:
  "supplier (mergeAiFixesIntoSources src corr) = json_copy (supplier src)
   \<and> reverseLogistics (mergeAiFixesIntoSources src corr) = json_copy (reverseLogistics src)"
  by (simp add: mergeAiFixesIntoSources_def Let_def json_copy_sources_def split: option.splits)

section \<open>Export and re-parse\<close>

lemma split_hd_ne: "split c s \<noteq> []"
  by (induction s) (auto simp: Let_def)







lemma dropWhile_id: "s = [] \<or> \<not> P (hd s) \<Longrightarrow> dropWhile P s = s"
  by (cases s) auto

lemma trim_id: "s = [] \<or> (\<not> is_ws (hd s) \<and> \<not> is_ws (last s)) \<Longrightarrow> trim s = s"
proof -
  assume a: "s = [] \<or> (\<not> is_ws (hd s) \<and> \<not> is_ws (last s))"
  then have 1: "dropWhile is_ws s = s" by (intro dropWhile_id) auto
  from a have "rev s = [] \<or> \<not> is_ws (hd (rev s))" by (auto simp: hd_rev)
  then have 2: "dropWhile is_ws (rev s) = rev s" by (rule dropWhile_id)
  show ?thesis by (simp add: trim_def 1 2)
qed























section \<open>Rounding to a double\<close>

lemma pow2_powi: "pow2 e = 2 powi e"
  by (simp add: pow2_def power_int_def power_one_over inverse_eq_divide)

lemma pow2_pos: "0 < pow2 e"
  by (simp add: pow2_powi)

lemma pow2_add: "pow2 (a + b) = pow2 a * pow2 b"
  by (simp add: pow2_powi power_int_add)

lemma pow2_nat: "pow2 (int n) = 2 ^ n"
  by (simp add: pow2_powi)

lemma pow2_mono: "a \<le> b \<Longrightarrow> pow2 a \<le> pow2 b"
  by (simp add: pow2_powi power_int_increasing)

lemma pow2_strict_mono: "a < b \<Longrightarrow> pow2 a < pow2 b"
  by (simp add: pow2_powi power_int_strict_increasing)

lemma pow2_le_iff: "pow2 a \<le> pow2 b \<longleftrightarrow> a \<le> b"
  using pow2_mono [of a b] pow2_strict_mono [of b a] by (auto simp: not_le [symmetric])

lemma pow2_less_iff: "pow2 a < pow2 b \<longleftrightarrow> a < b"
  using pow2_mono [of b a] pow2_strict_mono [of a b] by (auto simp: not_less [symmetric])

lemma pow2_diff: "pow2 (a - b) = pow2 a / pow2 b"
  by (simp add: pow2_powi power_int_diff)

lemma pow2_Suc: "pow2 (e + 1) = 2 * pow2 e"
  by (simp add: pow2_powi power_int_add)

lemma bitlen_rat_bounds:
  assumes "0 < (a::int)"
  shows "pow2 (bitlen a - 1) \<le> of_int a \<and> of_int a < pow2 (bitlen a)"
proof -
  from bitlen_bounds [OF assms]
  have 1: "2 ^ nat (bitlen a - 1) \<le> a" and 2: "a < 2 ^ nat (bitlen a)" by simp_all
  have b1: "1 \<le> bitlen a" using assms by (simp add: bitlen_alt_def)
  have "pow2 (bitlen a - 1) = 2 ^ nat (bitlen a - 1)"
    using b1 by (simp add: pow2_def)
  moreover have "pow2 (bitlen a) = 2 ^ nat (bitlen a)"
    using b1 by (simp add: pow2_def)
  moreover have "(2::rat) ^ nat (bitlen a - 1) \<le> of_int a"
    using 1 by (metis of_int_le_iff of_int_numeral of_int_power)
  moreover have "(of_int a :: rat) < 2 ^ nat (bitlen a)"
    using 2 by (metis of_int_less_iff of_int_numeral of_int_power)
  ultimately show ?thesis by simp
qed

lemma ilog2_bounds:
  assumes "0 < x"
  shows "pow2 (ilog2 x) \<le> x \<and> x < pow2 (ilog2 x + 1)"
proof -
  obtain a b where q: "quotient_of x = (a, b)" by (cases "quotient_of x")
  have b: "0 < b" using quotient_of_denom_pos [OF q] .
  have x: "x = of_int a / of_int b" using quotient_of_div [OF q] .
  have a: "0 < a" using assms b by (simp add: x zero_less_divide_iff)
  define d where "d = bitlen a - bitlen b"
  note A = bitlen_rat_bounds [OF a] and B = bitlen_rat_bounds [OF b]
  have bpos: "0 < (of_int b :: rat)" using b by simp
  have up: "x < pow2 (d + 1)"
  proof -
    have "of_int a < pow2 (bitlen a)" using A by simp
    also have "\<dots> = pow2 (d + 1) * pow2 (bitlen b - 1)"
      by (simp add: d_def pow2_add [symmetric])
    also have "\<dots> \<le> pow2 (d + 1) * of_int b"
      using B pow2_pos [of "d + 1"] by (simp add: mult_left_mono)
    finally show ?thesis using bpos by (simp add: x pos_divide_less_eq)
  qed
  have lo: "pow2 (d - 1) < x"
  proof -
    have "pow2 (d - 1) * of_int b < pow2 (d - 1) * pow2 (bitlen b)"
      using B pow2_pos [of "d - 1"] by (simp add: mult_strict_left_mono)
    also have "\<dots> = pow2 (bitlen a - 1)"
      by (simp add: d_def pow2_add [symmetric])
    also have "\<dots> \<le> of_int a" using A by simp
    finally show ?thesis using bpos by (simp add: x pos_less_divide_eq)
  qed
  have il: "ilog2 x = (if pow2 d \<le> x then d else d - 1)"
    by (simp add: ilog2_def q d_def Let_def)
  show ?thesis
  proof (cases "pow2 d \<le> x")
    case True
    then show ?thesis using up by (simp add: il)
  next
    case False
    then show ?thesis using lo by (simp add: il)
  qed
qed

lemma ilog2_unique:
  assumes "pow2 e \<le> x" and "x < pow2 (e + 1)"
  shows "ilog2 x = e"
proof -
  have x: "0 < x" using assms(1) pow2_pos [of e] by simp
  note I = ilog2_bounds [OF x]
  have "pow2 e < pow2 (ilog2 x + 1)" using assms(1) I by simp
  then have 1: "e < ilog2 x + 1" by (simp add: pow2_less_iff)
  have "pow2 (ilog2 x) < pow2 (e + 1)" using assms(2) I by simp
  then have 2: "ilog2 x < e + 1" by (simp add: pow2_less_iff)
  from 1 2 show ?thesis by simp
qed

lemma rte_error: "\<bar>of_int (round_ties_even y) - y\<bar> \<le> 1 / 2"
proof -
  have "of_int \<lfloor>y\<rfloor> \<le> y" and "y < of_int \<lfloor>y\<rfloor> + 1" by linarith+
  then show ?thesis by (auto simp: round_ties_even_def Let_def)
qed

lemma rte_of_int: "round_ties_even (of_int k) = k"
  by (simp add: round_ties_even_def Let_def)

lemma rte_le: "y \<le> of_int k \<Longrightarrow> round_ties_even y \<le> k"
proof -
  assume a: "y \<le> of_int k"
  have f: "\<lfloor>y\<rfloor> \<le> k" using a by (simp add: floor_le_iff)
  show ?thesis
  proof (cases "\<lfloor>y\<rfloor> = k")
    case True
    then have "y = of_int k" using a by (metis of_int_floor_le order_antisym)
    then show ?thesis by (simp add: rte_of_int)
  next
    case False
    with f have "\<lfloor>y\<rfloor> + 1 \<le> k" by simp
    then show ?thesis by (auto simp: round_ties_even_def Let_def)
  qed
qed

lemma rte_ge: "of_int k \<le> y \<Longrightarrow> k \<le> round_ties_even y"
proof -
  assume "of_int k \<le> y"
  then have "k \<le> \<lfloor>y\<rfloor>" by (simp add: le_floor_iff)
  then show ?thesis by (auto simp: round_ties_even_def Let_def)
qed

lemma fl_pos_normal:
  assumes x: "0 < x" and lo: "- 1022 \<le> ilog2 x" and hi: "ilog2 x < 1023"
  shows "\<exists>r. fl_pos x = Fin r \<and> \<bar>r - x\<bar> \<le> x / 2 ^ 53
            \<and> pow2 (ilog2 x) \<le> r \<and> r \<le> pow2 (ilog2 x + 1)
            \<and> (\<forall>K. x \<le> of_int K * pow2 (ilog2 x - 52)
                   \<longrightarrow> r \<le> of_int K * pow2 (ilog2 x - 52))"
proof -
  define e where "e = ilog2 x"
  define q where "q = pow2 (e - 52)"
  define M where "M = round_ties_even (x / q)"
  define r where "r = of_int M * q"
  have q: "0 < q" by (simp add: q_def pow2_pos)
  have em: "max (ilog2 x) (- 1022) = e" using lo by (simp add: e_def)
  have "fl_pos x = (if 1024 \<le> e \<or> (e = 1023 \<and> 2 ^ 53 \<le> M) then PInf else Fin r)"
    unfolding fl_pos_def Let_def em r_def M_def q_def by (rule refl)
  then have fl: "fl_pos x = Fin r"
    using hi by (simp add: e_def)
  note I = ilog2_bounds [OF x, folded e_def]
  have pe: "pow2 e = 2 ^ 52 * q"
    using pow2_add [of 52 "e - 52"] pow2_nat [of 52] by (simp add: q_def)
  have pe1: "pow2 (e + 1) = 2 ^ 53 * q"
    using pow2_add [of 53 "e - 52"] pow2_nat [of 53] by (simp add: q_def add.commute)
  have err: "\<bar>of_int M - x / q\<bar> \<le> 1 / 2" unfolding M_def by (rule rte_error)
  have "(of_int M - x / q) * q = r - x"
    using q by (simp add: r_def left_diff_distrib)
  then have "\<bar>r - x\<bar> = \<bar>(of_int M - x / q) * q\<bar>" by simp
  also have "\<dots> = \<bar>of_int M - x / q\<bar> * q"
    using q by (simp add: abs_mult)
  also have "\<dots> \<le> 1 / 2 * q" using err q by (intro mult_right_mono) simp_all
  also have "\<dots> \<le> x / 2 ^ 53" using I pe by simp
  finally have 1: "\<bar>r - x\<bar> \<le> x / 2 ^ 53" .
  have "of_int (2 ^ 52) \<le> x / q" using I pe q by (simp add: pos_le_divide_eq)
  then have "2 ^ 52 \<le> M" unfolding M_def by (rule rte_ge)
  then have "(2 ^ 52 :: rat) \<le> of_int M"
    by (metis of_int_le_iff of_int_numeral of_int_power)
  then have 2: "pow2 e \<le> r" using q by (simp add: pe r_def)
  have grid: "r \<le> of_int K * q" if "x \<le> of_int K * q" for K
  proof -
    from that q have "x / q \<le> of_int K" by (simp add: pos_divide_le_eq)
    then have "M \<le> K" unfolding M_def by (rule rte_le)
    then have "(of_int M :: rat) \<le> of_int K" by simp
    then show ?thesis using q by (simp add: r_def)
  qed
  have "x \<le> of_int (2 ^ 53) * q" using I pe1 by simp
  from grid [OF this] have 3: "r \<le> pow2 (e + 1)" by (simp add: pe1)
  show ?thesis
    using fl 1 2 3 grid by (auto simp: e_def [symmetric] q_def [symmetric])
qed

lemma fl_le_bound:
  assumes x: "0 < x" and xB: "x \<le> B" and lo: "- 1022 \<le> ilog2 x" and hi: "ilog2 B < 1023"
    and B: "B = of_int K * pow2 (ilog2 B - 52)"
  shows "\<exists>r. fl x = Fin r \<and> pow2 (ilog2 x) \<le> r \<and> r \<le> B \<and> \<bar>r - x\<bar> \<le> x / 2 ^ 53"
proof -
  have Bp: "0 < B" using x xB by simp
  note Ix = ilog2_bounds [OF x] and IB = ilog2_bounds [OF Bp]
  have "pow2 (ilog2 x) < pow2 (ilog2 B + 1)" using Ix IB xB by simp
  then have le: "ilog2 x \<le> ilog2 B" by (simp add: pow2_less_iff)
  then have hix: "ilog2 x < 1023" using hi by simp
  from fl_pos_normal [OF x lo hix] obtain r where
    r: "fl_pos x = Fin r" "\<bar>r - x\<bar> \<le> x / 2 ^ 53" "pow2 (ilog2 x) \<le> r"
       "r \<le> pow2 (ilog2 x + 1)"
    and grid: "\<And>K. x \<le> of_int K * pow2 (ilog2 x - 52) \<Longrightarrow> r \<le> of_int K * pow2 (ilog2 x - 52)"
    by blast
  have rB: "r \<le> B"
  proof (cases "ilog2 x = ilog2 B")
    case True
    have "x \<le> of_int K * pow2 (ilog2 x - 52)" using xB B True by simp
    from grid [OF this] show ?thesis using B True by simp
  next
    case False
    with le have "ilog2 x + 1 \<le> ilog2 B" by simp
    then have "pow2 (ilog2 x + 1) \<le> pow2 (ilog2 B)" by (rule pow2_mono)
    with r(4) IB show ?thesis by simp
  qed
  have "fl x = Fin r" using x r(1) by (simp add: fl_def)
  with r rB show ?thesis by blast
qed

lemma ilog2_1: "ilog2 1 = 0"
  by (rule ilog2_unique) (simp_all add: pow2_def)

lemma ilog2_100: "ilog2 100 = 6"
  by (rule ilog2_unique) (simp_all add: pow2_def)

lemma fl_0: "fl 0 = Fin 0"
  by (simp add: fl_def)

lemma ilog2_ge:
  assumes "pow2 e \<le> x"
  shows "e \<le> ilog2 x"
proof -
  have x: "0 < x" using assms pow2_pos [of e] by simp
  have "pow2 e < pow2 (ilog2 x + 1)" using assms ilog2_bounds [OF x] by simp
  then show ?thesis by (simp add: pow2_less_iff)
qed

lemma fl_le_1:
  assumes "0 < x" and "x \<le> 1" and "- 1022 \<le> ilog2 x"
  shows "\<exists>r. fl x = Fin r \<and> pow2 (ilog2 x) \<le> r \<and> r \<le> 1 \<and> \<bar>r - x\<bar> \<le> x / 2 ^ 53"
  by (rule fl_le_bound [OF assms(1,2,3), where K = "2 ^ 52"])
     (simp_all add: ilog2_1 pow2_def)

lemma fl_le_100:
  assumes "0 < x" and "x \<le> 100" and "- 1022 \<le> ilog2 x"
  shows "\<exists>r. fl x = Fin r \<and> pow2 (ilog2 x) \<le> r \<and> r \<le> 100 \<and> \<bar>r - x\<bar> \<le> x / 2 ^ 53"
  by (rule fl_le_bound [OF assms(1,2,3), where K = "100 * 2 ^ 46"])
     (simp_all add: ilog2_100 pow2_def)

section \<open>Disruption percentages\<close>

lemma percentOf_zero_total: "percentOf m 0 = Fin 0"
  by (simp add: percentOf_def)

lemma toFixed1_nonneg: "0 \<le> z \<Longrightarrow> toFixed1 z = of_int \<lfloor>10 * z + 1 / 2\<rfloor> / 10"
  by (simp add: toFixed1_def)

lemma fl_tenths:
  assumes "0 \<le> n" and "n \<le> 1000"
  shows "\<exists>q. fl (of_int n / 10) = Fin q \<and> 0 \<le> q \<and> q \<le> 100"
proof (cases "n = 0")
  case True
  then show ?thesis by (simp add: fl_0)
next
  case False
  with assms have n1: "1 \<le> n" by simp
  let ?x = "of_int n / 10 :: rat"
  have x: "0 < ?x" using n1 by simp
  have x100: "?x \<le> 100" using assms(2) by simp
  have "pow2 (- 4) \<le> ?x" using n1 by (simp add: pow2_def)
  then have "- 4 \<le> ilog2 ?x" by (rule ilog2_ge)
  then have lo: "- 1022 \<le> ilog2 ?x" by simp
  from fl_le_100 [OF x x100 lo] obtain r where
    "fl ?x = Fin r" "pow2 (ilog2 ?x) \<le> r" "r \<le> 100" by blast
  moreover have "0 < pow2 (ilog2 ?x)" by (rule pow2_pos)
  ultimately show ?thesis by (intro exI [of _ r]) simp
qed

lemma percentOf_zero_missing:
  assumes "0 < t"
  shows "percentOf 0 t = Fin 0"
proof -
  have "\<lfloor>1 / 2 :: rat\<rfloor> = 0" by (rule floor_unique) simp_all
  then show ?thesis using assms by (simp add: percentOf_def fl_0 toFixed1_def)
qed

lemma percentOf_rounded:
  assumes mt: "m \<le> t" and t0: "0 < t" and tb: "t < 2 ^ 32"
  shows "\<exists>n. 0 \<le> n \<and> n \<le> 1000 \<and> percentOf m t = fl (of_int n / 10)
           \<and> \<bar>of_int n / 10 - 100 * of_nat m / of_nat t :: rat\<bar> \<le> 1 / 20"
proof (cases "m = 0")
  case True
  have "percentOf 0 t = fl (of_int 0 / 10)"
    using percentOf_zero_missing [OF t0] by (simp add: fl_0)
  then show ?thesis using True by (intro exI [of _ 0]) simp
next
  case False
  then have m0: "0 < m" by simp
  define T where "T = (of_nat t :: rat)"
  define Mr where "Mr = (of_nat m :: rat)"
  have T0: "0 < T" using t0 by (simp add: T_def)
  have M0: "0 < Mr" using m0 by (simp add: Mr_def)
  have MT: "Mr \<le> T" using mt by (simp add: Mr_def T_def)
  have M1: "1 \<le> Mr" using m0 by (simp add: Mr_def)
  have Tb: "T < 2 ^ 32" unfolding T_def
    using tb by (metis of_nat_less_iff of_nat_numeral of_nat_power)
  define x where "x = Mr / T"
  have x0: "0 < x" using M0 T0 by (simp add: x_def)
  have x1: "x \<le> 1" using MT T0 by (simp add: x_def)
  have "1 / 2 ^ 32 \<le> 1 / T" using Tb T0 by (simp add: frac_le)
  also have "1 / T \<le> x" using M1 T0 by (simp add: x_def divide_right_mono)
  finally have xl: "pow2 (- 32) \<le> x" by (simp add: pow2_def)
  then have ix: "- 32 \<le> ilog2 x" by (rule ilog2_ge)
  then have lox: "- 1022 \<le> ilog2 x" by simp
  from fl_le_1 [OF x0 x1 lox] obtain y where
    y: "fl x = Fin y" "pow2 (ilog2 x) \<le> y" "y \<le> 1" "\<bar>y - x\<bar> \<le> x / 2 ^ 53" by blast
  have "pow2 (- 32) \<le> pow2 (ilog2 x)" using ix by (rule pow2_mono)
  with y(2) have yl: "pow2 (- 32) \<le> y" by simp
  have y0: "0 < y" using yl pow2_pos [of "- 32"] by simp
  define x2 where "x2 = y * 100"
  have x20: "0 < x2" using y0 by (simp add: x2_def)
  have x2h: "x2 \<le> 100" using y(3) by (simp add: x2_def)
  have "pow2 (- 32) \<le> x2" using yl y0 by (simp add: x2_def)
  then have "- 32 \<le> ilog2 x2" by (rule ilog2_ge)
  then have lox2: "- 1022 \<le> ilog2 x2" by simp
  from fl_le_100 [OF x20 x2h lox2] obtain z where
    z: "fl x2 = Fin z" "pow2 (ilog2 x2) \<le> z" "z \<le> 100" "\<bar>z - x2\<bar> \<le> x2 / 2 ^ 53" by blast
  have z0: "0 < z" using z(2) pow2_pos [of "ilog2 x2"] by simp
  define n where "n = \<lfloor>10 * z + 1 / 2\<rfloor>"
  have dv: "js_div (Fin (of_nat m)) (Fin (of_nat t)) = Fin y"
    using t0 y(1) by (simp add: x_def Mr_def T_def)
  have ml: "js_mul (Fin y) (Fin 100) = Fin z"
    using z(1) by (simp add: x2_def)
  have "\<not> 10 ^ 21 \<le> \<bar>z\<bar>" using z0 z(3) by simp
  then have pf: "parseFloat_toFixed1 (Fin z) = fl (of_int n / 10)"
    using z0 by (simp add: toFixed1_nonneg n_def)
  have "percentOf m t
        = parseFloat_toFixed1 (js_mul (js_div (Fin (of_nat m)) (Fin (of_nat t))) (Fin 100))"
    using t0 unfolding percentOf_def by (simp only: if_True)
  then have P: "percentOf m t = fl (of_int n / 10)"
    by (simp only: dv ml pf)
  have n0: "0 \<le> n" using z0 by (simp add: n_def)
  have "10 * z + 1 / 2 < 1001" using z(3) by simp
  then have "n < 1001" unfolding n_def by (simp add: floor_less_iff)
  then have n1000: "n \<le> 1000" by simp
  \<comment> \<open>the rounding error of the two operations\<close>
  have e1: "\<bar>z - 100 * x\<bar> \<le> 200 / 2 ^ 53"
  proof -
    have a: "z - 100 * x = (z - x2) + 100 * (y - x)" by (simp add: x2_def)
    have b: "\<bar>100 * (y - x)\<bar> = 100 * \<bar>y - x\<bar>" by (simp only: abs_mult abs_numeral)
    have "\<bar>z - 100 * x\<bar> \<le> \<bar>z - x2\<bar> + 100 * \<bar>y - x\<bar>"
      using abs_triangle_ineq [of "z - x2" "100 * (y - x)"] by (simp only: a b)
    also have "\<dots> \<le> x2 / 2 ^ 53 + 100 * (x / 2 ^ 53)"
      using z(4) y(4) by simp
    also have "\<dots> \<le> 100 / 2 ^ 53 + 100 * (1 / 2 ^ 53)"
      using x2h x1 by (intro add_mono mult_left_mono divide_right_mono) simp_all
    finally show ?thesis by simp
  qed
  define d where "d = 10 * z - 1000 * x"
  have dabs: "\<bar>d\<bar> \<le> 2000 / 2 ^ 53"
  proof -
    have "d = 10 * (z - 100 * x)" by (simp add: d_def)
    then have "\<bar>d\<bar> = 10 * \<bar>z - 100 * x\<bar>" by (simp only: abs_mult abs_numeral)
    with e1 show ?thesis by simp
  qed
  have "2 * T * \<bar>d\<bar> \<le> 2 * T * (2000 / 2 ^ 53)"
    using dabs T0 by (intro mult_left_mono) simp_all
  also have "\<dots> < 2 * 2 ^ 32 * (2000 / 2 ^ 53)"
    using Tb by simp
  also have "\<dots> < 1" by simp
  finally have small: "2 * T * \<bar>d\<bar> < 1" .
  have "\<bar>2 * T * d\<bar> = 2 * T * \<bar>d\<bar>"
    using T0 by (simp add: abs_mult)
  with small have "\<bar>2 * T * d\<bar> < 1" by simp
  then have whi: "2 * T * d < 1" and wlo: "- 1 < 2 * T * d"
    by (simp_all add: abs_less_iff)
  have Tx: "T * x = Mr" using T0 by (simp add: x_def)
  have nle: "of_int n \<le> 10 * z + 1 / 2" and ngt: "10 * z + 1 / 2 < of_int n + 1"
    unfolding n_def by linarith+
  have zd: "10 * z = 1000 * x + d" by (simp add: d_def)
  \<comment> \<open>both bounds, as inequalities between integers\<close>
  have up: "2 * int t * n \<le> 2000 * int m + int t"
  proof -
    have "2 * T * of_int n \<le> 2 * T * (1000 * x + d + 1 / 2)"
      using nle T0 by (simp add: zd)
    also have "\<dots> = 2000 * Mr + T + 2 * T * d"
      using Tx by (simp add: algebra_simps)
    also have "\<dots> < 2000 * Mr + T + 1"
      using whi by simp
    finally have "(of_int (2 * int t * n) :: rat) < of_int (2000 * int m + int t + 1)"
      by (simp add: T_def Mr_def)
    then have "2 * int t * n < 2000 * int m + int t + 1" by (simp only: of_int_less_iff)
    then show ?thesis by simp
  qed
  have dn: "2000 * int m - int t \<le> 2 * int t * n"
  proof -
    have "2000 * Mr + T + 2 * T * d = 2 * T * (1000 * x + d + 1 / 2)"
      using Tx by (simp add: algebra_simps)
    also have "\<dots> < 2 * T * (of_int n + 1)"
      using ngt T0 by (simp add: zd)
    finally have "2000 * Mr + T - 1 < 2 * T * (of_int n + 1)"
      using wlo by linarith
    then have "(of_int (2000 * int m + int t - 1) :: rat) < of_int (2 * int t * (n + 1))"
      by (simp add: T_def Mr_def)
    then have "2000 * int m + int t - 1 < 2 * int t * (n + 1)" by (simp only: of_int_less_iff)
    then show ?thesis by (simp add: algebra_simps)
  qed
  have "\<bar>of_int n / 10 - 100 * Mr / T\<bar> \<le> 1 / 20"
  proof -
    have u: "2 * T * of_int n \<le> 2000 * Mr + T"
    proof -
      have "(of_int (2 * int t * n) :: rat) \<le> of_int (2000 * int m + int t)"
        using up by (simp only: of_int_le_iff)
      then show ?thesis by (simp add: T_def Mr_def)
    qed
    have l: "2000 * Mr - T \<le> 2 * T * of_int n"
    proof -
      have "(of_int (2000 * int m - int t) :: rat) \<le> of_int (2 * int t * n)"
        using dn by (simp only: of_int_le_iff)
      then show ?thesis by (simp add: T_def Mr_def)
    qed
    have "of_int n / 10 - 100 * Mr / T = (2 * T * of_int n - 2000 * Mr) / (20 * T)"
      using T0 by (simp add: field_simps)
    moreover have "\<bar>2 * T * of_int n - 2000 * Mr\<bar> \<le> T" using u l by linarith
    ultimately show ?thesis using T0 by (simp add: abs_divide divide_le_eq)
  qed
  with n0 n1000 P show ?thesis
    by (intro exI [of _ n]) (simp add: Mr_def T_def)
qed

lemma percentOf_facts:
  assumes mt: "m \<le> t" and tb: "t < 2 ^ 32"
  shows "(\<exists>q. percentOf m t = Fin q \<and> 0 \<le> q \<and> q \<le> 100)
     \<and> (\<exists>n::int. percentOf m t = fl (of_int n / 10)
            \<and> (0 < t \<longrightarrow> \<bar>of_int n / 10 - 100 * of_nat m / of_nat t\<bar> \<le> (1 / 20 :: rat)))
     \<and> (t = 0 \<longrightarrow> percentOf m t = Fin 0)"
proof (cases "t = 0")
  case True
  have a: "\<exists>q. percentOf m t = Fin q \<and> 0 \<le> q \<and> q \<le> 100"
    using True by (simp add: percentOf_zero_total)
  have b: "\<exists>n::int. percentOf m t = fl (of_int n / 10)
            \<and> (0 < t \<longrightarrow> \<bar>of_int n / 10 - 100 * of_nat m / of_nat t\<bar> \<le> (1 / 20 :: rat))"
    using True by (intro exI [of _ 0]) (simp add: percentOf_zero_total fl_0)
  have c: "t = 0 \<longrightarrow> percentOf m t = Fin 0"
    by (simp add: percentOf_zero_total)
  from a b c show ?thesis by blast
next
  case False
  then have t0: "0 < t" by simp
  from percentOf_rounded [OF mt t0 tb] obtain n where
    n: "0 \<le> n" "n \<le> 1000" "percentOf m t = fl (of_int n / 10)"
       "\<bar>of_int n / 10 - 100 * of_nat m / of_nat t :: rat\<bar> \<le> 1 / 20" by blast
  from fl_tenths [OF n(1,2)] n(3) have "\<exists>q. percentOf m t = Fin q \<and> 0 \<le> q \<and> q \<le> 100"
    by simp
  with n False show ?thesis by blast
qed

lemma calculateDisruption_stats:
  "missingInventoryData (calculateDisruption h now l s su)
     = missingStats [''item_id'', ''inventory_qty'', ''last_updated'']
         (filter (\<lambda>r. truthy (row_get r ''item_id'')) (l @ s))
   \<and> missingOrderData (calculateDisruption h now l s su)
     = missingStats [''order_id'', ''order_qty'', ''last_updated'']
         (filter (\<lambda>r. truthy (row_get r ''order_id'')) (l @ s))"
  by (simp add: calculateDisruption_def missingStats_def Let_def)

lemma missingStats_facts:
  "percentage (missingStats req recs)
     = percentOf (count (missingStats req recs)) (total (missingStats req recs))
   \<and> count (missingStats req recs) \<le> total (missingStats req recs)
   \<and> total (missingStats req (filter P xs)) \<le> length xs"
  by (simp add: missingStats_def)

text \<open>
  On a tie the numeral may be either neighbour, since the quotient and the product are
  rounded to doubles before \<^verbatim>\<open>toFixed\<close> looks at them: one row of sixteen missing
  (6.25 per cent) gives 6.3, twenty-three of eighty (28.75 per cent) give 28.7.
\<close>

lemma percentOf_ties: "percentOf 1 16 = fl (63 / 10) \<and> percentOf 23 80 = fl (287 / 10)"
  by code_simp

text \<open>
  Claim C8. Take the legacy and spreadsheet rows together (fewer than \<open>2\<^sup>3\<^sup>2\<close>, what one
  array holds). For the inventory statistics the records are the rows with a truthy
  \<^verbatim>\<open>item_id\<close> and the required fields are \<^verbatim>\<open>item_id\<close>, \<^verbatim>\<open>inventory_qty\<close> and
  \<^verbatim>\<open>last_updated\<close>; for the order statistics they are the rows with a truthy
  \<^verbatim>\<open>order_id\<close>, and \<^verbatim>\<open>order_id\<close>, \<^verbatim>\<open>order_qty\<close> and \<^verbatim>\<open>last_updated\<close>. With \<open>t\<close> the
  number of records and \<open>m\<close> the number of records in which a required field is
  \<^verbatim>\<open>null\<close>, \<^verbatim>\<open>undefined\<close> or the empty string: \<^verbatim>\<open>total\<close> is \<open>t\<close>, \<^verbatim>\<open>count\<close> is \<open>m\<close>, and
  \<^verbatim>\<open>percentage\<close> is a number between 0 and 100; it is the double that \<^verbatim>\<open>parseFloat\<close>
  reads from a numeral \<open>n / 10\<close> with one decimal, and that numeral is within a twentieth
  of \<open>100 * m / t\<close>, that is, the ratio rounded to one decimal place; and it is 0 when
  \<open>t\<close> is 0.
\<close>

theorem calculateDisruption_percentages:
  assumes "length l + length s < 2 ^ 32"
    and "(md, key, qty) = (missingInventoryData (calculateDisruption h now l s su),
                           ''item_id'', ''inventory_qty'')
         \<or> (md, key, qty) = (missingOrderData (calculateDisruption h now l s su),
                              ''order_id'', ''order_qty'')"
    and "records = filter (\<lambda>r. truthy (row_get r key)) (l @ s)"
    and "t = length records"
    and "m = length (filter (\<lambda>r. \<exists>name\<in>{key, qty, ''last_updated''}.
                                  row_get r name \<in> {Null, Undefined, Str []}) records)"
  shows "total md = t \<and> count md = m
     \<and> (\<exists>q. percentage md = Fin q \<and> 0 \<le> q \<and> q \<le> 100)
     \<and> (\<exists>n::int. percentage md = fl (of_int n / 10)
            \<and> (0 < t \<longrightarrow> \<bar>of_int n / 10 - 100 * of_nat m / of_nat t\<bar> \<le> (1 / 20 :: rat)))
     \<and> (t = 0 \<longrightarrow> percentage md = Fin 0)"
proof -
  define req where "req = [key, qty, ''last_updated'']"
  have miss: "list_ex (missingField r) req
      \<longleftrightarrow> (\<exists>name\<in>{key, qty, ''last_updated''}. row_get r name \<in> {Null, Undefined, Str []})"
    for r by (auto simp: req_def missingField_def)
  have md: "md = missingStats req records"
    using assms(2) calculateDisruption_stats [of h now l s su]
    by (auto simp: req_def assms(3))
  have tot: "total md = t" by (simp add: md missingStats_def assms(4))
  have cnt: "count md = m" by (simp add: md missingStats_def assms(5) miss)
  have p: "percentage md = percentOf m t"
    using missingStats_facts [of req records] by (simp add: md [symmetric] tot cnt)
  have c: "m \<le> t" unfolding assms(4,5) by (rule length_filter_le)
  have "t \<le> length (l @ s)" unfolding assms(3,4) by (rule length_filter_le)
  with assms(1) have tb: "t < 2 ^ 32" by simp
  show ?thesis unfolding p using percentOf_facts [OF c tb] tot cnt by simp
qed

section \<open>Cleaning twice: where it changes nothing\<close>

lemma toUpperCase_char_cases:
  fixes c :: char
  defines "n \<equiv> of_char c :: nat"
  obtains (letter) "(97 \<le> n \<and> n \<le> 122) \<or> (224 \<le> n \<and> n \<le> 254 \<and> n \<noteq> 247)"
      "toUpperCase_char c = [char_of (n - 32)]" "(n - 32) mod 256 = n - 32"
    | (sharp) "n = 223" "toUpperCase_char c = ''SS''"
    | (other) "\<not> ((97 \<le> n \<and> n \<le> 122) \<or> (224 \<le> n \<and> n \<le> 254 \<and> n \<noteq> 247))" "n \<noteq> 223"
      "toUpperCase_char c = [c]"
proof (cases "(97 \<le> n \<and> n \<le> 122) \<or> (224 \<le> n \<and> n \<le> 254 \<and> n \<noteq> 247)")
  case True
  then have "n - 32 < 256" by linarith
  then have "(n - 32) mod 256 = n - 32" by simp
  moreover have "toUpperCase_char c = [char_of (n - 32)]"
    using True by (simp add: toUpperCase_char_def n_def Let_def)
  ultimately show ?thesis using True letter by blast
next
  case False
  show ?thesis
  proof (cases "n = 223")
    case True
    then have "toUpperCase_char c = ''SS''" by (simp add: toUpperCase_char_def n_def Let_def)
    with True sharp show ?thesis by blast
  next
    case f: False
    then have "toUpperCase_char c = [c]"
      using False by (auto simp: toUpperCase_char_def n_def Let_def)
    with False f other show ?thesis by blast
  qed
qed

lemma toUpperCase_char_facts:
  "concat (map toUpperCase_char (toUpperCase_char c)) = toUpperCase_char c"
  "toUpperCase_char c \<noteq> []"
  "is_ws c \<Longrightarrow> toUpperCase_char c = [c]"
  "\<not> is_ws c \<Longrightarrow> \<not> is_ws (hd (toUpperCase_char c))"
  "\<not> is_ws c \<Longrightarrow> \<not> is_ws (last (toUpperCase_char c))"
proof -
  have S: "toUpperCase_char CHR ''S'' = ''S''" "\<not> is_ws CHR ''S''"
    by (simp_all add: toUpperCase_char_def is_ws_def)
  have all: "concat (map toUpperCase_char (toUpperCase_char c)) = toUpperCase_char c
      \<and> toUpperCase_char c \<noteq> []
      \<and> (is_ws c \<longrightarrow> toUpperCase_char c = [c])
      \<and> (\<not> is_ws c \<longrightarrow> \<not> is_ws (hd (toUpperCase_char c)) \<and> \<not> is_ws (last (toUpperCase_char c)))"
  proof (cases c rule: toUpperCase_char_cases)
    case letter
    let ?m = "of_char c - 32 :: nat"
    have m: "(65 \<le> ?m \<and> ?m \<le> 90) \<or> (192 \<le> ?m \<and> ?m \<le> 222 \<and> ?m \<noteq> 215)"
      using letter(1) by linarith
    have 1: "toUpperCase_char (char_of ?m) = [char_of ?m]"
      using m by (auto simp: toUpperCase_char_def letter(3) Let_def)
    have 2: "\<not> is_ws (char_of ?m)"
      using m by (auto simp: is_ws_def letter(3))
    have 3: "\<not> is_ws c" using letter(1) by (auto simp: is_ws_def)
    show ?thesis by (simp add: letter(2) 1 2 3)
  next
    case sharp
    have "\<not> is_ws c" using sharp(1) by (simp add: is_ws_def)
    then show ?thesis by (simp add: sharp(2) S)
  next
    case other
    show ?thesis by (simp add: other(3))
  qed
  from all show "concat (map toUpperCase_char (toUpperCase_char c)) = toUpperCase_char c"
    "toUpperCase_char c \<noteq> []"
    "is_ws c \<Longrightarrow> toUpperCase_char c = [c]"
    "\<not> is_ws c \<Longrightarrow> \<not> is_ws (hd (toUpperCase_char c))"
    "\<not> is_ws c \<Longrightarrow> \<not> is_ws (last (toUpperCase_char c))"
    by simp_all
qed

lemma toUpperCase_idem: "toUpperCase (toUpperCase s) = toUpperCase s"
  by (induction s) (simp_all add: toUpperCase_def toUpperCase_char_facts(1))

lemma dropWhile_concat_map:
  assumes "\<And>c. is_ws c \<Longrightarrow> f c = [c]"
    and "\<And>c. \<not> is_ws c \<Longrightarrow> f c \<noteq> [] \<and> \<not> is_ws (hd (f c))"
  shows "dropWhile is_ws (concat (map f s)) = concat (map f (dropWhile is_ws s))"
proof (induction s)
  case Nil
  then show ?case by simp
next
  case (Cons c s)
  show ?case
  proof (cases "is_ws c")
    case True
    then show ?thesis using Cons.IH assms(1) [OF True] by simp
  next
    case False
    from assms(2) [OF False] obtain x xs where x: "f c = x # xs" "\<not> is_ws x"
      by (cases "f c") auto
    then show ?thesis using False by simp
  qed
qed

lemma last_dropWhile: "dropWhile P xs \<noteq> [] \<Longrightarrow> last (dropWhile P xs) = last xs"
  by (induction xs) (auto split: if_splits)

lemma trim_trim: "trim (trim s) = trim s"
proof (rule trim_id, cases "trim s = []")
  case True
  then show "trim s = [] \<or> (\<not> is_ws (hd (trim s)) \<and> \<not> is_ws (last (trim s)))" by simp
next
  case False
  define a where "a = dropWhile is_ws s"
  define b where "b = dropWhile is_ws (rev a)"
  have t: "trim s = rev b" by (simp add: trim_def a_def b_def)
  from False have b: "b \<noteq> []" by (simp add: t)
  then have a: "a \<noteq> []" by (auto simp: b_def)
  have 1: "\<not> is_ws (hd b)" using b unfolding b_def by (rule hd_dropWhile)
  have "last b = last (rev a)" using b unfolding b_def by (rule last_dropWhile)
  then have "last b = hd a" using a by (simp add: last_rev)
  moreover have "\<not> is_ws (hd a)" using a unfolding a_def by (rule hd_dropWhile)
  ultimately have 2: "\<not> is_ws (last b)" by simp
  show "trim s = [] \<or> (\<not> is_ws (hd (trim s)) \<and> \<not> is_ws (last (trim s)))"
    using 1 2 b by (simp add: t hd_rev last_rev)
qed

lemma trim_toUpperCase: "trim (toUpperCase s) = toUpperCase (trim s)"
proof -
  define a where "a = dropWhile is_ws s"
  have 1: "dropWhile is_ws (concat (map toUpperCase_char s)) = concat (map toUpperCase_char a)"
    unfolding a_def
    by (rule dropWhile_concat_map) (simp_all add: toUpperCase_char_facts)
  have 2: "rev (concat (map toUpperCase_char a))
      = concat (map (rev \<circ> toUpperCase_char) (rev a))"
    by (simp add: rev_concat rev_map)
  have 3: "dropWhile is_ws (concat (map (rev \<circ> toUpperCase_char) (rev a)))
      = concat (map (rev \<circ> toUpperCase_char) (dropWhile is_ws (rev a)))"
    by (rule dropWhile_concat_map)
      (simp_all add: toUpperCase_char_facts hd_rev)
  have 4: "rev (concat (map (rev \<circ> toUpperCase_char) b)) = concat (map toUpperCase_char (rev b))"
    for b by (simp add: rev_concat rev_map comp_def)
  have "trim (toUpperCase s) = rev (dropWhile is_ws (rev (concat (map toUpperCase_char a))))"
    by (simp only: trim_def toUpperCase_def 1)
  also have "\<dots> = rev (concat (map (rev \<circ> toUpperCase_char) (dropWhile is_ws (rev a))))"
    by (simp only: 2 3)
  also have "\<dots> = concat (map toUpperCase_char (rev (dropWhile is_ws (rev a))))"
    by (rule 4)
  also have "\<dots> = toUpperCase (trim s)"
    by (simp only: trim_def toUpperCase_def a_def)
  finally show ?thesis .
qed

lemma normal_idem: "toUpperCase (trim (toUpperCase (trim s))) = toUpperCase (trim s)"
  by (simp add: trim_toUpperCase trim_trim toUpperCase_idem)

lemma jsonStable_iff: "jsonStable v \<longleftrightarrow> definedValue v \<and> notInfinite v"
proof (cases v)
  case (Num n)
  then show ?thesis by (cases n) (auto simp: jsonStable_def definedValue_def notInfinite_def)
qed (auto simp: jsonStable_def definedValue_def notInfinite_def)

lemma json_value_stable: "jsonStable v \<Longrightarrow> json_value v = v \<and> v \<noteq> Undefined"
  by (auto simp: jsonStable_def)

lemma json_row_id: "list_all (\<lambda>(k, v). jsonStable v) r \<Longrightarrow> json_row r = r"
  by (induction r) (auto simp: json_row_def jsonStable_def)

lemma json_value_defined: "v \<noteq> Undefined \<Longrightarrow> definedValue (json_value v)"
proof (cases v)
  case (Num n)
  then show ?thesis by (cases n) (simp_all add: definedValue_def)
qed (simp_all add: definedValue_def)

lemma json_row_defined: "list_all (\<lambda>(k, v). definedValue v) (json_row r)"
  by (induction r) (auto simp: json_row_def json_value_defined)

lemma row_set_all:
  "list_all (\<lambda>(k, v). P v) r \<Longrightarrow> P v \<Longrightarrow> list_all (\<lambda>(k, v). P v) (row_set r c v)"
  by (induction r) auto

lemma clean_qty_defined:
  "list_all (\<lambda>(k, v). definedValue v) r \<Longrightarrow> list_all (\<lambda>(k, v). definedValue v) (clean_qty r c)"
proof -
  assume a: "list_all (\<lambda>(k, v). definedValue v) r"
  have 1: "definedValue Null" by (simp add: definedValue_def)
  have 2: "definedValue (if isNaN n then Null else Num n)" for n
    by (cases n) (simp_all add: definedValue_def)
  show ?thesis
    unfolding clean_qty_def Let_def using row_set_all [OF a] 1 2 by (simp del: Number.simps)
qed

lemma clean_text_defined:
  "list_all (\<lambda>(k, v). definedValue v) r \<Longrightarrow> list_all (\<lambda>(k, v). definedValue v) (clean_text r c)"
proof -
  assume a: "list_all (\<lambda>(k, v). definedValue v) r"
  have "definedValue (Str s)" for s by (simp add: definedValue_def)
  then show ?thesis
    unfolding clean_text_def using row_set_all [OF a] a by (simp split: jsval.splits)
qed

lemma foldl_clean_qty_defined:
  "list_all (\<lambda>(k, v). definedValue v) r \<Longrightarrow>
   list_all (\<lambda>(k, v). definedValue v) (foldl clean_qty r cs)"
  by (induction cs arbitrary: r) (simp_all add: clean_qty_defined)

lemma foldl_clean_text_defined:
  "list_all (\<lambda>(k, v). definedValue v) r \<Longrightarrow>
   list_all (\<lambda>(k, v). definedValue v) (foldl clean_text r cs)"
  by (induction cs arbitrary: r) (simp_all add: clean_text_defined)

lemma row_set_same: "row_get r k = v \<Longrightarrow> v \<noteq> Undefined \<Longrightarrow> row_set r k v = r"
  by (induction r) (auto simp: row_get_def split: if_splits)

lemma keys_row_set: "k \<in> fst ` set r \<Longrightarrow> map fst (row_set r k v) = map fst r"
proof (induction r)
  case Nil
  then show ?case by simp
next
  case (Cons p r)
  show ?case
  proof (cases "fst p = k")
    case True
    then show ?thesis by (cases p) simp
  next
    case False
    with Cons.prems have "k \<in> fst ` set r" by auto
    from Cons.IH [OF this] False show ?thesis by (cases p) simp
  qed
qed

lemma row_get_defined_key: "row_get r k \<noteq> Undefined \<Longrightarrow> k \<in> fst ` set r"
  by (auto simp: row_get_def split: option.splits dest!: map_of_SomeD intro: rev_image_eqI)

lemma clean_qty_id: "numberOrNull (row_get r c) \<Longrightarrow> clean_qty r c = r"
  by (auto simp: clean_qty_def numberOrNull_def Let_def row_set_same)

lemma clean_text_id: "normalText (row_get r c) \<Longrightarrow> clean_text r c = r"
  by (auto simp: clean_text_def normalText_def row_set_same split: jsval.splits)

lemma foldl_id: "\<forall>c\<in>set cs. f r c = r \<Longrightarrow> foldl f r cs = r"
  by (induction cs) simp_all

lemma normal_empty: "toUpperCase (trim []) = []"
  by (simp add: toUpperCase_def trim_def)

lemma clean_text_normal_same: "normalText (row_get (clean_text r c) c)"
  by (auto simp: clean_text_def normalText_def row_get_row_set normal_idem normal_empty
           split: jsval.splits)

lemma clean_text_normal_keep:
  "normalText (row_get r k) \<Longrightarrow> normalText (row_get (clean_text r c) k)"
  by (cases "c = k") (simp_all add: clean_text_normal_same row_get_clean_text)

lemma foldl_clean_text_normal:
  "normalText (row_get r k) \<or> k \<in> set cs \<Longrightarrow>
   normalText (row_get (foldl clean_text r cs) k)"
proof (induction cs arbitrary: r)
  case Nil
  then show ?case by simp
next
  case (Cons c cs)
  have "normalText (row_get (clean_text r c) k) \<or> k \<in> set cs"
    using Cons.prems clean_text_normal_same [of r k] clean_text_normal_keep [of r k c] by auto
  from Cons.IH [OF this] show ?case by simp
qed

lemma keys_clean_qty: "c \<in> fst ` set r \<Longrightarrow> map fst (clean_qty r c) = map fst r"
  by (simp add: clean_qty_def Let_def keys_row_set)

lemma keys_clean_text: "map fst (clean_text r c) = map fst r"
  by (auto simp: clean_text_def keys_row_set row_get_defined_key split: jsval.splits)

lemma keys_foldl_clean_qty:
  "set cs \<subseteq> fst ` set r \<Longrightarrow> map fst (foldl clean_qty r cs) = map fst r"
proof (induction cs arbitrary: r)
  case Nil
  then show ?case by simp
next
  case (Cons c cs)
  have k: "map fst (clean_qty r c) = map fst r" using Cons.prems by (simp add: keys_clean_qty)
  then have "fst ` set (clean_qty r c) = fst ` set r" by (metis set_map)
  with Cons.prems have "set cs \<subseteq> fst ` set (clean_qty r c)" by simp
  from Cons.IH [OF this] k show ?case by simp
qed

lemma keys_foldl_clean_text: "map fst (foldl clean_text r cs) = map fst r"
  by (induction cs arbitrary: r) (simp_all add: keys_clean_text)

text \<open>
  Cleaning is idempotent wherever the first cleaning yields no infinite number: the
  second call's copy then changes nothing, the quantity columns are the same, and every
  coerced or normalised field is a fixed point of its coercion. The equality is up to
  the sign of a zero (the first cleaning can yield \<^verbatim>\<open>-0\<close>, which the copy of the second
  turns into \<^verbatim>\<open>0\<close>), and it is stated for text fields whose capitals are characters
  of the model.
\<close>

lemma cleanData_idem_finite:
  assumes fin: "list_all (list_all (\<lambda>(k, v). notInfinite v)) (cleanData d sn)"
    and "\<forall>row\<in>set d. \<forall>c\<in>set textColumns. \<forall>s. row_get row c = Str s \<longrightarrow> capitalInRange s"
  shows "cleanData (cleanData d sn) sn' = cleanData d sn"
proof (cases "d = []")
  case True
  then show ?thesis by (simp add: cleanData_def)
next
  case False
  define Q where "Q = qtyColumns_of (json_copy d)"
  define f where "f row = foldl clean_text (foldl clean_qty row Q) textColumns" for row
  define C where "C = cleanData d sn"
  have C: "C = map f (json_copy d)"
    using False by (simp add: C_def cleanData_def Let_def Q_def f_def)
  have Cne: "C \<noteq> []" using False by (simp add: C json_copy_def)
  obtain x xs where d: "d = x # xs" using False by (cases d) auto
  define r0 where "r0 = json_row x"
  have hdC: "hd C = f r0" by (simp add: C d json_copy_def r0_def)
  have Q0: "Q = filter (\<lambda>col. str_includes (toLowerCase col) ''qty'') (Object_keys r0)"
    by (simp add: Q_def qtyColumns_of_def d json_copy_def r0_def)
  \<comment> \<open>the copy of the cleaned rows is the cleaned rows\<close>
  have stable: "json_row r = r" if "r \<in> set C" for r
  proof -
    from that obtain r1 where r: "r = f (json_row r1)" by (auto simp: C json_copy_def)
    have "list_all (\<lambda>(k, v). definedValue v) r"
      unfolding r f_def
      by (intro foldl_clean_text_defined foldl_clean_qty_defined json_row_defined)
    moreover have "list_all (\<lambda>(k, v). notInfinite v) r"
      using fin that by (simp add: C_def [symmetric] list_all_iff)
    ultimately have "list_all (\<lambda>(k, v). jsonStable v) r"
      by (auto simp: list_all_iff jsonStable_iff)
    then show ?thesis by (rule json_row_id)
  qed
  then have copy: "json_copy C = C" by (simp add: json_copy_def map_idI)
  \<comment> \<open>the quantity columns are the same\<close>
  have "set Q \<subseteq> fst ` set r0" by (auto simp: Q0 set_Object_keys)
  then have "map fst (f r0) = map fst r0"
    by (simp add: f_def keys_foldl_clean_text keys_foldl_clean_qty)
  then have "Object_keys (f r0) = Object_keys r0" by (simp add: Object_keys_def)
  then have Q': "qtyColumns_of C = Q"
    using Cne hdC by (cases C) (simp_all add: qtyColumns_of_def Q0)
  \<comment> \<open>cleaning a cleaned row changes nothing\<close>
  have fixed: "f r = r" if "r \<in> set C" for r
  proof -
    from that obtain r1 where r: "r = f r1" by (auto simp: C)
    have "\<forall>c\<in>set Q. clean_qty r c = r"
    proof
      fix c assume "c \<in> set Q"
      then have "numberOrNull (row_get r c)"
        unfolding r f_def by (intro foldl_clean_text_good foldl_clean_qty_good disjI2)
      then show "clean_qty r c = r" by (rule clean_qty_id)
    qed
    then have 1: "foldl clean_qty r Q = r" by (rule foldl_id)
    have "\<forall>c\<in>set textColumns. clean_text r c = r"
    proof
      fix c assume "c \<in> set textColumns"
      then have "normalText (row_get r c)"
        unfolding r f_def by (intro foldl_clean_text_normal disjI2)
      then show "clean_text r c = r" by (rule clean_text_id)
    qed
    then have "foldl clean_text r textColumns = r" by (rule foldl_id)
    with 1 show ?thesis by (simp add: f_def)
  qed
  have "cleanData C sn' = map f C"
    using Cne by (simp add: cleanData_def Let_def copy Q' f_def)
  also have "\<dots> = C" using fixed by (simp add: map_idI)
  finally show ?thesis by (simp add: C_def)
qed

section \<open>The correction merger: rows that are kept\<close>

lemma json_copy_id:
  "list_all (list_all (\<lambda>(k, v). jsonStable v)) rows \<Longrightarrow> json_copy rows = rows"
  by (simp add: json_copy_def list_all_iff map_idI json_row_id)

text \<open>
  Where every value of the supplier and reverse-logistics rows is one that the JSON copy
  returns as it is, these rows come back as they were (up to the sign of a zero: the
  copy turns \<^verbatim>\<open>-0\<close> into \<^verbatim>\<open>0\<close>).
\<close>

lemma merge_keeps_stable:
  assumes "list_all (list_all (\<lambda>(k, v). jsonStable v)) (supplier src)"
    and "list_all (list_all (\<lambda>(k, v). jsonStable v)) (reverseLogistics src)"
  shows "supplier (mergeAiFixesIntoSources src corr) = supplier src
     \<and> reverseLogistics (mergeAiFixesIntoSources src corr) = reverseLogistics src"
  using merge_keeps_copy [of src corr] json_copy_id [OF assms(1)] json_copy_id [OF assms(2)]
  by simp

lemma Map_set_keys: "fst ` set (Map_set m k v) = insert k (fst ` set m)"
proof (induction m)
  case Nil
  then show ?case by simp
next
  case (Cons p m)
  obtain a b where p: "p = (a, b)" by (cases p)
  show ?case using Cons.IH by (simp add: p insert_commute)
qed

lemma foldl_Map_set_keys:
  "fst ` set (foldl (\<lambda>m item. Map_set m (g item) item) m0 items) = fst ` set m0 \<union> g ` set items"
  by (induction items arbitrary: m0) (auto simp: Map_set_keys)

lemma updateSource_unmatched:
  assumes "i < length rows"
    and "\<forall>item\<in>set corrected. row_get item idField \<noteq> row_get (rows ! i) idField"
  shows "updateSource rows corrected idField mappings ! i = rows ! i"
proof -
  let ?m = "foldl (\<lambda>m item. Map_set m (row_get item idField) item) [] corrected"
  have "row_get (rows ! i) idField \<notin> fst ` set ?m"
    using assms(2) by (auto simp: foldl_Map_set_keys)
  then have "map_of ?m (row_get (rows ! i) idField) = None"
    by (simp add: map_of_eq_None_iff)
  then show ?thesis using assms(1) by (simp add: updateSource_def Let_def)
qed

lemma length_updateSource: "length (updateSource rows corrected idField mappings) = length rows"
  by (simp add: updateSource_def Let_def)

text \<open>
  A legacy or spreadsheet row whose \<^verbatim>\<open>item_id\<close> is that of no corrected inventory row
  and whose \<^verbatim>\<open>order_id\<close> is that of no corrected order comes back as the copy made
  it.
\<close>

lemma merge_unmatched_legacy:
  assumes i: "i < length (legacy src)"
    and inv: "\<forall>items. consolidatedInventory corr = Some items \<longrightarrow>
               (\<forall>item\<in>set items. row_get item ''item_id''
                   \<noteq> row_get (json_row (legacy src ! i)) ''item_id'')"
    and ord: "\<forall>items. consolidatedOrders corr = Some items \<longrightarrow>
               (\<forall>item\<in>set items. row_get item ''order_id''
                   \<noteq> row_get (json_row (legacy src ! i)) ''order_id'')"
  shows "legacy (mergeAiFixesIntoSources src corr) ! i = json_row (legacy src ! i)"
proof -
  define r where "r = json_row (legacy src ! i)"
  define l0 where "l0 = json_copy (legacy src)"
  have l0: "i < length l0" "l0 ! i = r" using i by (simp_all add: l0_def json_copy_def r_def)
  define l1 where "l1 = (case consolidatedInventory corr of
      Some items \<Rightarrow> updateSource l0 items ''item_id''
        [(''item_name'', ''item_name''), (''inventory_qty'', ''inventory_qty''),
         (''last_updated'', ''last_updated'')]
    | None \<Rightarrow> l0)"
  have l1: "i < length l1 \<and> l1 ! i = r"
  proof (cases "consolidatedInventory corr")
    case None
    then show ?thesis using l0 by (simp add: l1_def)
  next
    case (Some items)
    with inv have "\<forall>item\<in>set items. row_get item ''item_id'' \<noteq> row_get (l0 ! i) ''item_id''"
      by (simp add: l0 r_def)
    from updateSource_unmatched [OF l0(1) this] show ?thesis
      using l0 Some by (simp add: l1_def length_updateSource)
  qed
  define l2 where "l2 = (case consolidatedOrders corr of
      Some items \<Rightarrow> updateSource l1 items ''order_id''
        [(''order_qty'', ''order_qty''), (''last_updated'', ''last_updated'')]
    | None \<Rightarrow> l1)"
  have l2: "l2 ! i = r"
  proof (cases "consolidatedOrders corr")
    case None
    then show ?thesis using l1 by (simp add: l2_def)
  next
    case (Some items)
    with ord have "\<forall>item\<in>set items. row_get item ''order_id'' \<noteq> row_get (l1 ! i) ''order_id''"
      by (simp add: l1 r_def)
    from updateSource_unmatched [OF conjunct1 [OF l1] this] show ?thesis
      using l1 Some by (simp add: l2_def)
  qed
  have "legacy (mergeAiFixesIntoSources src corr) = l2"
    by (simp add: mergeAiFixesIntoSources_def Let_def json_copy_sources_def l2_def l1_def l0_def
        split: option.splits)
  then show ?thesis by (simp add: l2 r_def)
qed

lemma merge_unmatched_spreadsheet:
  assumes i: "i < length (spreadsheet src)"
    and inv: "\<forall>items. consolidatedInventory corr = Some items \<longrightarrow>
               (\<forall>item\<in>set items. row_get item ''item_id''
                   \<noteq> row_get (json_row (spreadsheet src ! i)) ''item_id'')"
    and ord: "\<forall>items. consolidatedOrders corr = Some items \<longrightarrow>
               (\<forall>item\<in>set items. row_get item ''order_id''
                   \<noteq> row_get (json_row (spreadsheet src ! i)) ''order_id'')"
  shows "spreadsheet (mergeAiFixesIntoSources src corr) ! i = json_row (spreadsheet src ! i)"
proof -
  define r where "r = json_row (spreadsheet src ! i)"
  define l0 where "l0 = json_copy (spreadsheet src)"
  have l0: "i < length l0" "l0 ! i = r" using i by (simp_all add: l0_def json_copy_def r_def)
  define l1 where "l1 = (case consolidatedInventory corr of
      Some items \<Rightarrow> updateSource l0 items ''item_id''
        [(''item_name'', ''item_name''), (''inventory_qty'', ''inventory_qty''),
         (''last_updated'', ''last_updated'')]
    | None \<Rightarrow> l0)"
  have l1: "i < length l1 \<and> l1 ! i = r"
  proof (cases "consolidatedInventory corr")
    case None
    then show ?thesis using l0 by (simp add: l1_def)
  next
    case (Some items)
    with inv have "\<forall>item\<in>set items. row_get item ''item_id'' \<noteq> row_get (l0 ! i) ''item_id''"
      by (simp add: l0 r_def)
    from updateSource_unmatched [OF l0(1) this] show ?thesis
      using l0 Some by (simp add: l1_def length_updateSource)
  qed
  define l2 where "l2 = (case consolidatedOrders corr of
      Some items \<Rightarrow> updateSource l1 items ''order_id''
        [(''order_qty'', ''order_qty''), (''last_updated'', ''last_updated'')]
    | None \<Rightarrow> l1)"
  have l2: "l2 ! i = r"
  proof (cases "consolidatedOrders corr")
    case None
    then show ?thesis using l1 by (simp add: l2_def)
  next
    case (Some items)
    with ord have "\<forall>item\<in>set items. row_get item ''order_id'' \<noteq> row_get (l1 ! i) ''order_id''"
      by (simp add: l1 r_def)
    from updateSource_unmatched [OF conjunct1 [OF l1] this] show ?thesis
      using l1 Some by (simp add: l2_def)
  qed
  have "spreadsheet (mergeAiFixesIntoSources src corr) = l2"
    by (simp add: mergeAiFixesIntoSources_def Let_def json_copy_sources_def l2_def l1_def l0_def
        split: option.splits)
  then show ?thesis by (simp add: l2 r_def)
qed

section \<open>The recency scenario\<close>

text \<open>
  Claim C2. Legacy holds the row A1 / 100 / 2024-01-01 and the spreadsheet the row
  A1 / 120 / 2024-01-02 (no supplier or returns rows). Detection gives exactly one
  inconsistency, of type "Inventory Quantity Discrepancy", whose one joined row carries
  both quantities; consolidation gives exactly one inventory row, keyed A1, with quantity
  120 and source Spreadsheet.
\<close>

theorem scenario_recency_wins:
  "identifyInconsistencies
     [[(''item_id'', Str ''A1''), (''inventory_qty'', Num (Fin 100)),
       (''last_updated'', Str ''2024-01-01'')]]
     [[(''item_id'', Str ''A1''), (''inventory_qty'', Num (Fin 120)),
       (''last_updated'', Str ''2024-01-02'')]]
   = [\<lparr>type = ''Inventory Quantity Discrepancy'',
       details = [[(''item_id'', Str ''A1''), (''inventory_qty_legacy'', Num (Fin 100)),
                   (''inventory_qty_spreadsheet'', Num (Fin 120))]]\<rparr>]
   \<and> inventory (consolidateData h
        [[(''item_id'', Str ''A1''), (''inventory_qty'', Num (Fin 100)),
          (''last_updated'', Str ''2024-01-01'')]]
        [[(''item_id'', Str ''A1''), (''inventory_qty'', Num (Fin 120)),
          (''last_updated'', Str ''2024-01-02'')]] [] [])
     = [[(''item_id'', Str ''A1''), (''item_name'', Undefined),
         (''inventory_qty'', Num (Fin 120)), (''last_updated'', Str ''2024-01-02''),
         (''_source'', Str ''Spreadsheet'')]]"
  by code_simp

section \<open>Cleaning, on concrete rows\<close>

text \<open>The first row has no \<^verbatim>\<open>order_qty\<close>; the second row keeps its string \<^verbatim>\<open>12\<close>.\<close>

theorem cleanData_first_row_decides_witness:
  "(1::nat) < length [[(''item_id'', Str ''a1'')],
                      [(''item_id'', Str ''b2''), (''order_qty'', Str ''12'')]]
   \<and> (0::nat) < 1
   \<and> str_includes (toLowerCase ''order_qty'') ''qty''
   \<and> ''order_qty'' \<notin> set (Object_keys (hd [[(''item_id'', Str ''a1'')],
                      [(''item_id'', Str ''b2''), (''order_qty'', Str ''12'')]]))
   \<and> row_get ([[(''item_id'', Str ''a1'')],
                [(''item_id'', Str ''b2''), (''order_qty'', Str ''12'')]] ! 1) ''order_qty''
       = Str ''12''
   \<and> row_get (cleanData [[(''item_id'', Str ''a1'')],
                [(''item_id'', Str ''b2''), (''order_qty'', Str ''12'')]] ''Legacy Database'' ! 1)
        ''order_qty'' = Str ''12''"
proof -
  let ?d = "[[(''item_id'', Str ''a1'')],
             [(''item_id'', Str ''b2''), (''order_qty'', Str ''12'')]]"
  have h1: "(1::nat) < length ?d" by simp
  have h3: "str_includes (toLowerCase ''order_qty'') ''qty''" by code_simp
  have h4: "''order_qty'' \<notin> set (Object_keys (hd ?d))" by (simp add: set_Object_keys)
  have h5: "row_get (?d ! 1) ''order_qty'' = Str ''12''" by (simp add: row_get_def)
  have "row_get (cleanData ?d ''Legacy Database'' ! 1) ''order_qty'' = Str ''12''"
    by (rule cleanData_first_row_decides [OF h1 _ h3 h4 h5]) auto
  with h1 h3 h4 h5 show ?thesis by simp
qed

text \<open>A quantity column of the first row, cleaned to the number 120.\<close>

theorem cleanData_qty_number_or_null_witness:
  "[[(''item_id'', Str '' a1''), (''inventory_qty'', Str ''120'')]] \<noteq> []
   \<and> ''inventory_qty''
       \<in> set (Object_keys (json_row (hd [[(''item_id'', Str '' a1''),
                                             (''inventory_qty'', Str ''120'')]])))
   \<and> str_includes (toLowerCase ''inventory_qty'') ''qty''
   \<and> [(''item_id'', Str ''A1''), (''inventory_qty'', Num (Fin 120))]
       \<in> set (cleanData [[(''item_id'', Str '' a1''), (''inventory_qty'', Str ''120'')]]
                 ''Legacy Database'')
   \<and> (row_get [(''item_id'', Str ''A1''), (''inventory_qty'', Num (Fin 120))] ''inventory_qty''
         = Null
       \<or> (\<exists>n. row_get [(''item_id'', Str ''A1''), (''inventory_qty'', Num (Fin 120))]
                  ''inventory_qty'' = Num n \<and> \<not> isNaN n))"
proof -
  let ?d = "[[(''item_id'', Str '' a1''), (''inventory_qty'', Str ''120'')]]"
  let ?r = "[(''item_id'', Str ''A1''), (''inventory_qty'', Num (Fin 120))]"
  have h1: "?d \<noteq> []" by simp
  have h2: "''inventory_qty'' \<in> set (Object_keys (json_row (hd ?d)))" by code_simp
  have h3: "str_includes (toLowerCase ''inventory_qty'') ''qty''" by code_simp
  have e: "cleanData ?d ''Legacy Database'' = [?r]" by code_simp
  have h4: "?r \<in> set (cleanData ?d ''Legacy Database'')" unfolding e by simp
  from cleanData_qty_number_or_null [OF h1 h2 h3 h4] h1 h2 h3 h4 show ?thesis by blast
qed

text \<open>
  Claim C5 as stated fails twice on one input: a quantity written \<^verbatim>\<open>Infinity\<close> is kept
  as the number \<^verbatim>\<open>Infinity\<close>, which is not finite, and a \<^verbatim>\<open>qty\<close> field that the first
  row does not have keeps its string.
\<close>

theorem cleanData_qty_counterexample:
  "cleanData [[(''inventory_qty'', Str ''Infinity'')],
              [(''inventory_qty'', Str ''5''), (''order_qty'', Str ''n/a'')]]
     ''Legacy Database''
   = [[(''inventory_qty'', Num PInf)],
      [(''inventory_qty'', Num (Fin 5)), (''order_qty'', Str ''n/a'')]]"
  by code_simp

text \<open>
  Claim C6 (the code departs from it). A quantity written \<^verbatim>\<open>Infinity\<close> is cleaned to the
  number \<^verbatim>\<open>Infinity\<close>; cleaning the result again copies it through JSON, which writes
  \<^verbatim>\<open>null\<close> for it: the second cleaning changes the row.
\<close>

theorem cleanData_twice_differs:
  "cleanData [[(''item_id'', Str ''a1''), (''inventory_qty'', Str ''Infinity'')]]
     ''Legacy Database''
   = [[(''item_id'', Str ''A1''), (''inventory_qty'', Num PInf)]]
   \<and> cleanData (cleanData [[(''item_id'', Str ''a1''), (''inventory_qty'', Str ''Infinity'')]]
                  ''Legacy Database'') ''Legacy Database''
     = [[(''item_id'', Str ''A1''), (''inventory_qty'', Null)]]"
  by code_simp

section \<open>In-transit shipments, on a concrete row\<close>

text \<open>
  Evaluated at 2024-01-01 (UTC), a shipment dated 12/25/2033, years after the evaluation
  time, is in transit.
\<close>

theorem inTransit_no_upper_cutoff_witness:
  "[(''item_id'', Str ''A1''), (''shipment_date'', Str ''12/25/2033'')]
     \<in> set [[(''item_id'', Str ''A1''), (''shipment_date'', Str ''12/25/2033'')]]
   \<and> row_get [(''item_id'', Str ''A1''), (''shipment_date'', Str ''12/25/2033'')]
        ''shipment_date'' = Str ''12/25/2033''
   \<and> ''12/25/2033'' \<noteq> []
   \<and> Date_parse host0 (replaceMDY ''12/25/2033'') = Fin 2019081600000
   \<and> twoWeeksAgo host0 1704067200000 = Fin 1702857600000
   \<and> (1702857600000::rat) < 2019081600000
   \<and> (1704067200000::rat) < 2019081600000
   \<and> [(''item_id'', Str ''A1''), (''shipment_date'', Str ''12/25/2033'')]
       \<in> set (inTransitOrders (calculateDisruption host0 1704067200000 [] []
                 [[(''item_id'', Str ''A1''), (''shipment_date'', Str ''12/25/2033'')]]))"
proof -
  let ?r = "[(''item_id'', Str ''A1''), (''shipment_date'', Str ''12/25/2033'')]"
  have h1: "?r \<in> set [?r]" by simp
  have h2: "row_get ?r ''shipment_date'' = Str ''12/25/2033''" by (simp add: row_get_def)
  have h3: "''12/25/2033'' \<noteq> []" by simp
  have h4: "Date_parse host0 (replaceMDY ''12/25/2033'') = Fin 2019081600000" by code_simp
  have h5: "twoWeeksAgo host0 1704067200000 = Fin 1702857600000" by code_simp
  have h6: "(1702857600000::rat) < 2019081600000" by simp
  from inTransit_no_upper_cutoff [OF h1 h2 h3 h4 h5 h6, where l = "[]" and s = "[]"] h1 h2 h3 h4 h5 h6
  show ?thesis by simp
qed

section \<open>Merging corrections, on a concrete supplier row\<close>

text \<open>
  Claim C4 (the code departs from it). A supplier file whose \<^verbatim>\<open>shipment_qty\<close> reads
  \<^verbatim>\<open>Infinity\<close> is parsed and cleaned to a row holding the number \<^verbatim>\<open>Infinity\<close>; merging
  any corrections (here none) returns that supplier row with \<^verbatim>\<open>null\<close> in its place.
\<close>

theorem mergeAiFixesIntoSources_alters_supplier:
  "cleanData (parseCSV ''item_id,shipment_qty\<newline>S1,Infinity'') ''Supplier Data''
   = [[(''item_id'', Str ''S1''), (''shipment_qty'', Num PInf)]]
   \<and> supplier (mergeAiFixesIntoSources
        \<lparr>legacy = [], spreadsheet = [],
         supplier = [[(''item_id'', Str ''S1''), (''shipment_qty'', Num PInf)]],
         reverseLogistics = [], historicalBackup = None\<rparr>
        \<lparr>consolidatedInventory = None, consolidatedOrders = None\<rparr>)
     = [[(''item_id'', Str ''S1''), (''shipment_qty'', Null)]]"
  by code_simp

section \<open>Export and re-parse, on concrete rows\<close>



section \<open>Disruption percentages, on concrete rows\<close>

text \<open>One inventory record of three lacks its quantity: 33.3 per cent.\<close>

theorem calculateDisruption_percentages_witness:
  "length [[(''item_id'', Str ''A1''), (''inventory_qty'', Null),
            (''last_updated'', Str ''2024-01-01'')],
           [(''item_id'', Str ''A2''), (''inventory_qty'', Num (Fin 5)),
            (''last_updated'', Str ''2024-01-01'')]]
     + length [[(''item_id'', Str ''A3''), (''inventory_qty'', Num (Fin 7)),
                (''last_updated'', Str ''2024-01-02'')]] < (2::nat) ^ 32
   \<and> length (filter (\<lambda>r. truthy (row_get r ''item_id''))
         ([[(''item_id'', Str ''A1''), (''inventory_qty'', Null),
            (''last_updated'', Str ''2024-01-01'')],
           [(''item_id'', Str ''A2''), (''inventory_qty'', Num (Fin 5)),
            (''last_updated'', Str ''2024-01-01'')]]
          @ [[(''item_id'', Str ''A3''), (''inventory_qty'', Num (Fin 7)),
              (''last_updated'', Str ''2024-01-02'')]])) = 3
   \<and> total (missingInventoryData (calculateDisruption host0 0
          [[(''item_id'', Str ''A1''), (''inventory_qty'', Null),
            (''last_updated'', Str ''2024-01-01'')],
           [(''item_id'', Str ''A2''), (''inventory_qty'', Num (Fin 5)),
            (''last_updated'', Str ''2024-01-01'')]]
          [[(''item_id'', Str ''A3''), (''inventory_qty'', Num (Fin 7)),
            (''last_updated'', Str ''2024-01-02'')]] [])) = 3
   \<and> count (missingInventoryData (calculateDisruption host0 0
          [[(''item_id'', Str ''A1''), (''inventory_qty'', Null),
            (''last_updated'', Str ''2024-01-01'')],
           [(''item_id'', Str ''A2''), (''inventory_qty'', Num (Fin 5)),
            (''last_updated'', Str ''2024-01-01'')]]
          [[(''item_id'', Str ''A3''), (''inventory_qty'', Num (Fin 7)),
            (''last_updated'', Str ''2024-01-02'')]] [])) = 1
   \<and> (\<exists>q. percentage (missingInventoryData (calculateDisruption host0 0
          [[(''item_id'', Str ''A1''), (''inventory_qty'', Null),
            (''last_updated'', Str ''2024-01-01'')],
           [(''item_id'', Str ''A2''), (''inventory_qty'', Num (Fin 5)),
            (''last_updated'', Str ''2024-01-01'')]]
          [[(''item_id'', Str ''A3''), (''inventory_qty'', Num (Fin 7)),
            (''last_updated'', Str ''2024-01-02'')]] [])) = Fin q \<and> 0 \<le> q \<and> q \<le> 100)
   \<and> percentage (missingInventoryData (calculateDisruption host0 0
          [[(''item_id'', Str ''A1''), (''inventory_qty'', Null),
            (''last_updated'', Str ''2024-01-01'')],
           [(''item_id'', Str ''A2''), (''inventory_qty'', Num (Fin 5)),
            (''last_updated'', Str ''2024-01-01'')]]
          [[(''item_id'', Str ''A3''), (''inventory_qty'', Num (Fin 7)),
            (''last_updated'', Str ''2024-01-02'')]] [])) = fl (333 / 10)"
proof -
  let ?l = "[[(''item_id'', Str ''A1''), (''inventory_qty'', Null),
              (''last_updated'', Str ''2024-01-01'')],
             [(''item_id'', Str ''A2''), (''inventory_qty'', Num (Fin 5)),
              (''last_updated'', Str ''2024-01-01'')]]"
  let ?s = "[[(''item_id'', Str ''A3''), (''inventory_qty'', Num (Fin 7)),
              (''last_updated'', Str ''2024-01-02'')]]"
  let ?md = "missingInventoryData (calculateDisruption host0 0 ?l ?s [])"
  let ?records = "filter (\<lambda>r. truthy (row_get r ''item_id'')) (?l @ ?s)"
  let ?missing = "filter (\<lambda>r. \<exists>name\<in>{''item_id'', ''inventory_qty'', ''last_updated''}.
                              row_get r name \<in> {Null, Undefined, Str []}) ?records"
  have h1: "length ?l + length ?s < (2::nat) ^ 32" by simp
  have h2: "(?md, ''item_id'', ''inventory_qty'')
              = (missingInventoryData (calculateDisruption host0 0 ?l ?s []),
                 ''item_id'', ''inventory_qty'')
            \<or> (?md, ''item_id'', ''inventory_qty'')
              = (missingOrderData (calculateDisruption host0 0 ?l ?s []),
                 ''order_id'', ''order_qty'')" by simp
  have t: "length ?records = 3" by (simp add: row_get_def)
  have m: "length ?missing = 1" by (simp add: row_get_def)
  have e: "percentage ?md = fl (333 / 10)" by code_simp
  from calculateDisruption_percentages [OF h1 h2 refl refl refl]
  have "total ?md = length ?records \<and> count ?md = length ?missing
      \<and> (\<exists>q. percentage ?md = Fin q \<and> 0 \<le> q \<and> q \<le> 100)" by blast
  with h1 t m e show ?thesis by simp
qed

end
